theory Spec2Isabelle
  imports Complex_Main "HOL-Library.Word" "HOL-Library.Multiset"
begin

unbundle bit_operations_syntax

section \<open>JavaScript values\<close>

text \<open>
  A decoded JSON payload is a JavaScript value. Numbers are token counts and are kept as
  integers; a string is a list of code units, each below 256. An object is its list of
  properties in insertion order, every key occurring once (as \<open>JSON.parse\<close> builds
  it). \<open>JUndefined\<close> is what reading a missing property yields.
\<close>

datatype jsval =
    JUndefined
  | JNull
  | JBool bool
  | JNum int
  | JStr string
  | JArr "jsval list"
  | JObj "(string \<times> jsval) list"

text \<open>Truthiness, as \<open>if (v)\<close>, \<open>v || w\<close> and \<open>v && w\<close> test it.\<close>

fun truthy :: "jsval \<Rightarrow> bool" where
  "truthy JUndefined = False"
| "truthy JNull = False"
| "truthy (JBool b) = b"
| "truthy (JNum n) = (n \<noteq> 0)"
| "truthy (JStr s) = (s \<noteq> [])"
| "truthy (JArr xs) = True"
| "truthy (JObj ps) = True"

text \<open>
  \<open>v.k\<close> on a value that is neither \<open>null\<close> nor \<open>undefined\<close>, for the property
  names this program reads (none of them is defined on a primitive or on an array).
  On \<open>null\<close> the read throws a TypeError; every caller below writes that branch out
  before it calls \<open>js_get\<close>.
\<close>

fun js_get :: "jsval \<Rightarrow> string \<Rightarrow> jsval" where
  "js_get (JObj ps) k = (case map_of ps k of None \<Rightarrow> JUndefined | Some v \<Rightarrow> v)"
| "js_get v k = JUndefined"

text \<open>\<open>v?.k\<close>: \<open>undefined\<close> when \<open>v\<close> is \<open>null\<close> or \<open>undefined\<close>.\<close>

definition js_get_opt :: "jsval \<Rightarrow> string \<Rightarrow> jsval" where
  "js_get_opt v k = (if v = JNull \<or> v = JUndefined then JUndefined else js_get v k)"

text \<open>\<open>a || b\<close>.\<close>

definition js_or :: "jsval \<Rightarrow> jsval \<Rightarrow> jsval" where
  "js_or a b = (if truthy a then a else b)"

section \<open>Usage Extractor\<close>

text \<open>
  The record that \<open>parseUsageFromEvent\<close> builds and \<open>processUsageData\<close> consumes.
  The extractor copies whatever truthy value the payload holds, so its fields are
  JavaScript values; the aggregator is fed a model string and numbers.
\<close>

record ('m, 'n) usage_record =
  model :: 'm
  input_tokens :: 'n
  output_tokens :: 'n
  cache_read_input_tokens :: 'n
  cache_creation_input_tokens :: 'n

text \<open>
  \<open>parseUsageFromEvent(eventData)\<close>, part_001 lines 648-694. The argument is the result
  of \<open>JSON.parse(eventData)\<close>: \<open>None\<close> when it throws, which the \<open>catch\<close> turns into
  \<open>null\<close>. \<open>JSON.parse\<close> can return \<open>null\<close> itself; \<open>data.usage\<close> then throws and the
  same \<open>catch\<close> applies. The three \<open>if\<close> statements are kept in the order of the source.
\<close>

definition parseUsageFromEvent :: "jsval option \<Rightarrow> (jsval, jsval) usage_record option" where
  "parseUsageFromEvent parsed =
     (case parsed of
        None \<Rightarrow> None
      | Some data \<Rightarrow>
          if data = JNull then None
          else if truthy (js_get data ''usage'') then
            (let u = js_get data ''usage'' in
             Some \<lparr> model = js_or (js_get data ''model'') (JStr ''''),
                    input_tokens =
                      js_or (js_get u ''prompt_tokens'') (js_or (js_get u ''input_tokens'') (JNum 0)),
                    output_tokens =
                      js_or (js_get u ''completion_tokens'')
                        (js_or (js_get u ''output_tokens'') (JNum 0)),
                    cache_read_input_tokens =
                      js_or (js_get u ''cache_read_input_tokens'')
                        (js_or (js_get_opt (js_get u ''prompt_tokens_details'') ''cached_tokens'')
                           (JNum 0)),
                    cache_creation_input_tokens =
                      js_or (js_get u ''cache_creation_input_tokens'') (JNum 0) \<rparr>)
          else if js_get data ''type'' = JStr ''message_delta'' \<and> truthy (js_get data ''usage'') then
            (let u = js_get data ''usage'' in
             Some \<lparr> model = JStr ''claude'',
                    input_tokens = js_or (js_get u ''input_tokens'') (JNum 0),
                    output_tokens = js_or (js_get u ''output_tokens'') (JNum 0),
                    cache_read_input_tokens = js_or (js_get u ''cache_read_input_tokens'') (JNum 0),
                    cache_creation_input_tokens =
                      js_or (js_get u ''cache_creation_input_tokens'') (JNum 0) \<rparr>)
          else if js_get data ''type'' = JStr ''message_start''
                  \<and> truthy (js_get_opt (js_get data ''message'') ''usage'') then
            (let m = js_get data ''message''; u = js_get m ''usage'' in
             Some \<lparr> model = js_or (js_get_opt m ''model'') (JStr ''claude''),
                    input_tokens = js_or (js_get u ''input_tokens'') (JNum 0),
                    output_tokens = js_or (js_get u ''output_tokens'') (JNum 0),
                    cache_read_input_tokens = js_or (js_get u ''cache_read_input_tokens'') (JNum 0),
                    cache_creation_input_tokens =
                      js_or (js_get u ''cache_creation_input_tokens'') (JNum 0) \<rparr>)
          else None)"

section \<open>Numbers and strings as JavaScript prints them\<close>

text \<open>Digits of a natural number in a base up to 16, lower case as \<open>toString(16)\<close> gives them.\<close>

definition digit_char :: "nat \<Rightarrow> char" where
  "digit_char d = ''0123456789abcdef'' ! d"

function digits_of :: "nat \<Rightarrow> nat \<Rightarrow> string" where
  "digits_of b n =
     (if b < 2 \<or> n < b then [digit_char n] else digits_of b (n div b) @ [digit_char (n mod b)])"
  by pat_completeness auto
termination
  by (relation "measure (\<lambda>(b, n). n)") auto

declare digits_of.simps [simp del]

text \<open>\<open>String(n)\<close> and \<open>n.toString(16)\<close> for an integer \<open>n\<close>.\<close>

definition show_int :: "int \<Rightarrow> string" where
  "show_int i = (if i < 0 then ''-'' @ digits_of 10 (nat (- i)) else digits_of 10 (nat i))"

definition show_nat :: "nat \<Rightarrow> string" where
  "show_nat n = digits_of 10 n"

definition toString16 :: "int \<Rightarrow> string" where
  "toString16 i = (if i < 0 then ''-'' @ digits_of 16 (nat (- i)) else digits_of 16 (nat i))"

text \<open>
  Two message templates of the source hold a character outside Latin-1, the arrows
  U+2192 and U+2194; they are written here as their UTF-8 bytes.
\<close>

definition arrow_right :: string where
  "arrow_right = [char_of (0xE2::nat), char_of (0x86::nat), char_of (0x92::nat)]"

definition arrow_both :: string where
  "arrow_both = [char_of (0xE2::nat), char_of (0x86::nat), char_of (0x94::nat)]"

text \<open>\<open>s.substring(a, b)\<close> for \<open>0 \<le> a\<close>; the source never passes \<open>a > b\<close>.\<close>

definition substring :: "string \<Rightarrow> nat \<Rightarrow> nat \<Rightarrow> string" where
  "substring s a b = take (b - a) (drop a s)"

text \<open>
  White space as \<open>\s\<close> and \<open>trim()\<close> see it, among code units below 256:
  TAB, LF, VT, FF, CR, space and the no-break space.
\<close>

definition is_space :: "char \<Rightarrow> bool" where
  "is_space c = (c \<in> set [CHR 0x09, CHR 0x0A, CHR 0x0B, CHR 0x0C, CHR 0x0D, CHR '' '', CHR 0xA0])"

definition trim :: "string \<Rightarrow> string" where
  "trim s = rev (dropWhile is_space (rev (dropWhile is_space s)))"

text \<open>
  Case folding of a regular expression with the \<open>i\<close> flag and without the \<open>u\<close> flag:
  among code units below 256 only the ASCII letters are identified with each other
  when the pattern's character is ASCII.
\<close>

definition lower_char :: "char \<Rightarrow> char" where
  "lower_char c =
     (case map_of (zip ''ABCDEFGHIJKLMNOPQRSTUVWXYZ'' ''abcdefghijklmnopqrstuvwxyz'') c of
        None \<Rightarrow> c
      | Some l \<Rightarrow> l)"

definition lower :: "string \<Rightarrow> string" where
  "lower s = map lower_char s"

text \<open>Does the lower-case pattern \<open>p\<close> match at the start of \<open>s\<close>, ignoring case?\<close>

definition starts_ci :: "string \<Rightarrow> string \<Rightarrow> bool" where
  "starts_ci p s = (lower (take (length p) s) = p)"

text \<open>\<open>/p/i.test(s)\<close> for a literal pattern \<open>p\<close> given in lower case.\<close>

fun contains_ci :: "string \<Rightarrow> string \<Rightarrow> bool" where
  "contains_ci p [] = (p = [])"
| "contains_ci p (c # cs) = (starts_ci p (c # cs) \<or> contains_ci p cs)"

section \<open>Content Fingerprint Engine\<close>

text \<open>
  \<open>hashString\<close>, part_001 lines 157-165. \<open>hash << 5\<close> and \<open>hash & hash\<close> convert to a
  signed 32-bit integer, and the additions between them are exact in a double, so the
  loop is arithmetic modulo \<open>2^32\<close>; the result is printed as a signed number in base 16.
\<close>

definition hashString :: "string \<Rightarrow> string" where
  "hashString str =
     toString16 (sint (foldl (\<lambda>hash c. (push_bit 5 hash - hash) + of_char c) (0::32 word) str))"

text \<open>
  \<open>JSON.stringify\<close> on a decoded JSON value. \<open>None\<close> is the result \<open>undefined\<close>, which
  only \<open>undefined\<close> itself gives; inside an array it is printed as \<open>null\<close>, inside an
  object the property is left out.
\<close>

definition hex2 :: "nat \<Rightarrow> string" where
  "hex2 n = [digit_char (n div 16), digit_char (n mod 16)]"

definition quote_char :: "char \<Rightarrow> string" where
  "quote_char c =
     (let n = (of_char c :: nat) in
      if n = 0x22 then [char_of (0x5C::nat), char_of (0x22::nat)]
      else if n = 0x5C then [char_of (0x5C::nat), char_of (0x5C::nat)]
      else if n = 8 then [char_of (0x5C::nat), CHR ''b'']
      else if n = 12 then [char_of (0x5C::nat), CHR ''f'']
      else if n = 10 then [char_of (0x5C::nat), CHR ''n'']
      else if n = 13 then [char_of (0x5C::nat), CHR ''r'']
      else if n = 9 then [char_of (0x5C::nat), CHR ''t'']
      else if n < 32 then [char_of (0x5C::nat), CHR ''u'', CHR ''0'', CHR ''0''] @ hex2 n
      else [c])"

definition quote :: "string \<Rightarrow> string" where
  "quote s = [char_of (0x22::nat)] @ concat (map quote_char s) @ [char_of (0x22::nat)]"

fun join :: "string \<Rightarrow> string list \<Rightarrow> string" where
  "join sep [] = []"
| "join sep [x] = x"
| "join sep (x # y # ys) = x @ sep @ join sep (y # ys)"

fun stringify :: "jsval \<Rightarrow> string option"
  and stringify_elems :: "jsval list \<Rightarrow> string list"
  and stringify_props :: "(string \<times> jsval) list \<Rightarrow> string list" where
  "stringify JUndefined = None"
| "stringify JNull = Some ''null''"
| "stringify (JBool b) = Some (if b then ''true'' else ''false'')"
| "stringify (JNum n) = Some (show_int n)"
| "stringify (JStr s) = Some (quote s)"
| "stringify (JArr xs) = Some (''['' @ join '','' (stringify_elems xs) @ '']'')"
| "stringify (JObj ps) = Some (''{'' @ join '','' (stringify_props ps) @ ''}'')"
| "stringify_elems [] = []"
| "stringify_elems (x # xs) =
     (case stringify x of None \<Rightarrow> ''null'' | Some s \<Rightarrow> s) # stringify_elems xs"
| "stringify_props [] = []"
| "stringify_props ((k, v) # ps) =
     (case stringify v of
        None \<Rightarrow> stringify_props ps
      | Some s \<Rightarrow> (quote k @ '':'' @ s) # stringify_props ps)"

text \<open>\<open>String(v)\<close>, as a template literal converts a value.\<close>

fun js_toString :: "jsval \<Rightarrow> string"
  and js_toString_elems :: "jsval list \<Rightarrow> string list" where
  "js_toString JUndefined = ''undefined''"
| "js_toString JNull = ''null''"
| "js_toString (JBool b) = (if b then ''true'' else ''false'')"
| "js_toString (JNum n) = show_int n"
| "js_toString (JStr s) = s"
| "js_toString (JArr xs) = join '','' (js_toString_elems xs)"
| "js_toString (JObj ps) = ''[object Object]''"
| "js_toString_elems [] = []"
| "js_toString_elems (x # xs) =
     (if x = JNull \<or> x = JUndefined then [] else js_toString x) # js_toString_elems xs"

text \<open>
  A message of the request body is a JSON object, given by its properties; the host
  sends \<open>messages\<close> as an array of such objects.
\<close>

type_synonym message = "(string \<times> jsval) list"

text \<open>\<open>JSON.stringify(msg)\<close> for a message object; an object never gives \<open>undefined\<close>.\<close>

definition stringify_message :: "message \<Rightarrow> string" where
  "stringify_message msg = ''{'' @ join '','' (stringify_props msg) @ ''}''"

record fingerprint =
  index :: nat
  role :: jsval
  contentPreview :: string
  fullContent :: string
  hash :: string
  hasCacheControl :: bool

datatype js_error = TypeError

text \<open>
  The callback of \<open>messages.map\<close> in \<open>hashMessages\<close>. A message without a \<open>content\<close>
  property makes \<open>JSON.stringify(msg.content)\<close> return \<open>undefined\<close>, and
  \<open>fullContent.substring\<close> then throws.
\<close>

definition hashMessage :: "nat \<Rightarrow> message \<Rightarrow> js_error + fingerprint" where
  "hashMessage idx msg =
     (let content = js_get (JObj msg) ''content'';
          full = (case content of JStr s \<Rightarrow> Some s | _ \<Rightarrow> stringify content)
      in case full of
           None \<Rightarrow> Inl TypeError
         | Some fullContent' \<Rightarrow>
             Inr \<lparr> index = idx,
                   role = js_get (JObj msg) ''role'',
                   contentPreview = substring fullContent' 0 100,
                   fullContent = fullContent',
                   hash = hashString (stringify_message msg),
                   hasCacheControl = truthy (js_get (JObj msg) ''cache_control'') \<rparr>)"

fun hashMessages_from :: "nat \<Rightarrow> message list \<Rightarrow> js_error + fingerprint list" where
  "hashMessages_from idx [] = Inr []"
| "hashMessages_from idx (m # ms) =
     (case hashMessage idx m of
        Inl e \<Rightarrow> Inl e
      | Inr f \<Rightarrow>
          (case hashMessages_from (Suc idx) ms of Inl e \<Rightarrow> Inl e | Inr fs \<Rightarrow> Inr (f # fs)))"

text \<open>\<open>hashMessages(messages)\<close>, part_001 lines 170-185; \<open>None\<close> is \<open>null\<close>.\<close>

definition hashMessages :: "message list option \<Rightarrow> js_error + fingerprint list" where
  "hashMessages messages =
     (case messages of None \<Rightarrow> Inr [] | Some ms \<Rightarrow> hashMessages_from 0 ms)"

section \<open>Divergence Locator\<close>

record string_diff =
  diffIndex :: nat
  markerPos :: "nat option"
  context1 :: string
  context2 :: string
  lengthDiff :: "string option"

text \<open>The \<open>while\<close> loop of \<open>findStringDiff\<close>: the length of the common prefix.\<close>

fun first_char_diff :: "string \<Rightarrow> string \<Rightarrow> nat" where
  "first_char_diff (a # as) (b # bs) = (if a = b then Suc (first_char_diff as bs) else 0)"
| "first_char_diff as bs = 0"

text \<open>
  \<open>findStringDiff(str1, str2)\<close> with the default \<open>contextChars = 200\<close>, part_001 lines
  190-218. The early return has no \<open>markerPos\<close> and no \<open>lengthDiff\<close>.
\<close>

definition findStringDiff :: "string \<Rightarrow> string \<Rightarrow> string_diff" where
  "findStringDiff str1 str2 =
     (if str1 = [] \<or> str2 = [] then
        \<lparr> diffIndex = 0, markerPos = None, context1 = substring str1 0 500,
          context2 = substring str2 0 500, lengthDiff = None \<rparr>
      else
        (let diffIndex' = first_char_diff str1 str2;
             start = (if 200 \<le> diffIndex' then diffIndex' - 200 else 0);
             end1 = min (length str1) (diffIndex' + 200);
             end2 = min (length str2) (diffIndex' + 200)
         in \<lparr> diffIndex = diffIndex',
              markerPos = Some (diffIndex' - start + (if 0 < start then 3 else 0)),
              context1 = (if 0 < start then ''...'' else []) @ substring str1 start end1
                         @ (if end1 < length str1 then ''...'' else []),
              context2 = (if 0 < start then ''...'' else []) @ substring str2 start end2
                         @ (if end2 < length str2 then ''...'' else []),
              lengthDiff =
                (if length str1 \<noteq> length str2
                 then Some (''Length: '' @ show_nat (length str1) @ '' '' @ arrow_right @ '' ''
                            @ show_nat (length str2))
                 else None) \<rparr>))"

record divergence_point =
  divergeIndex :: int
  reason :: string
  prevContent :: "string option"
  currContent :: "string option"
  diff :: "string_diff option"
  role_d :: "jsval option"

text \<open>
  The \<open>for\<close> loop of \<open>findDivergencePoint\<close>: the first index below both lengths at
  which the hashes differ, with the two fingerprints found there.
\<close>

fun first_hash_diff ::
  "nat \<Rightarrow> fingerprint list \<Rightarrow> fingerprint list \<Rightarrow> (nat \<times> fingerprint \<times> fingerprint) option" where
  "first_hash_diff i (p # ps) (c # cs) =
     (if hash p \<noteq> hash c then Some (i, p, c) else first_hash_diff (Suc i) ps cs)"
| "first_hash_diff i ps cs = None"

text \<open>\<open>findDivergencePoint(prevHashes, currHashes)\<close>, part_001 lines 223-251.\<close>

definition findDivergencePoint ::
  "fingerprint list option \<Rightarrow> fingerprint list option \<Rightarrow> divergence_point" where
  "findDivergencePoint prevHashes currHashes =
     (case (prevHashes, currHashes) of
        (Some prevH, Some currH) \<Rightarrow>
          (case first_hash_diff 0 prevH currH of
             Some (i, p, c) \<Rightarrow>
               (let d = findStringDiff (fullContent p) (fullContent c) in
                \<lparr> divergeIndex = int i,
                  reason = ''Message '' @ show_nat i @ '' ('' @ js_toString (role c)
                           @ '') changed at char '' @ show_nat (diffIndex d),
                  prevContent = Some (fullContent p),
                  currContent = Some (fullContent c),
                  diff = Some d,
                  role_d = Some (role c) \<rparr>)
           | None \<Rightarrow>
               if length prevH \<noteq> length currH then
                 \<lparr> divergeIndex = int (min (length prevH) (length currH)),
                   reason = ''Message count changed ('' @ show_nat (length prevH) @ '' ''
                            @ arrow_right @ '' '' @ show_nat (length currH) @ '')'',
                   prevContent = None, currContent = None, diff = None, role_d = None \<rparr>
               else
                 \<lparr> divergeIndex = - 1, reason = ''No divergence detected'',
                   prevContent = None, currContent = None, diff = None, role_d = None \<rparr>)
      | _ \<Rightarrow>
          \<lparr> divergeIndex = 0, reason = ''No previous data'',
            prevContent = None, currContent = None, diff = None, role_d = None \<rparr>)"

section \<open>Pattern Detector\<close>

record patterns =
  hasLoreEntries :: bool
  loreEntryNames :: "string list"
  hasDepthMarkers :: bool
  depthValues :: "nat list"
  hasSystemPrompt :: bool
  hasChatHistory :: bool
  hasCharacterCard :: bool
  hasPersona :: bool

text \<open>
  The \<open>exec\<close> loop over \<open>/<lore_entry\s+([^>]+)>/gi\<close>, returning \<open>match[1].trim()\<close> of
  every match in order. At a position where the tag name matches, the text \<open>r\<close> up to
  the next \<open>>\<close> must split into one or more white-space characters and a group of
  one or more characters: it starts with white space and has at least two characters.
  The greedy group is \<open>r\<close> without its leading white space (or its last character when
  \<open>r\<close> is white space only), so the trimmed group is \<open>trim r\<close>. The search resumes
  after the match, or at the next position when there is none here.
\<close>

function lore_entry_scan :: "string \<Rightarrow> string list" where
  "lore_entry_scan [] = []"
| "lore_entry_scan (c # cs) =
     (let rest = drop 11 (c # cs);
          r = takeWhile (\<lambda>x. x \<noteq> CHR ''>'') rest;
          after = drop (length r) rest
      in if starts_ci ''<lore_entry'' (c # cs) \<and> after \<noteq> [] \<and> 2 \<le> length r \<and> is_space (hd r)
         then trim r # lore_entry_scan (tl after)
         else lore_entry_scan cs)"
  by pat_completeness auto
termination
  by (relation "measure length") (auto simp: less_Suc_eq_le intro: le_trans [OF diff_le_self])

text \<open>
  The same for \<open>/\[Lore:\s*([^\]]+)\]/gi\<close>: the text up to the next \<open>]\<close> must be
  non-empty.
\<close>

function alt_lore_scan :: "string \<Rightarrow> string list" where
  "alt_lore_scan [] = []"
| "alt_lore_scan (c # cs) =
     (let rest = drop 6 (c # cs);
          r = takeWhile (\<lambda>x. x \<noteq> CHR '']'') rest;
          after = drop (length r) rest
      in if starts_ci ''[lore:'' (c # cs) \<and> after \<noteq> [] \<and> r \<noteq> []
         then trim r # alt_lore_scan (tl after)
         else alt_lore_scan cs)"
  by pat_completeness auto
termination
  by (relation "measure length") (auto simp: less_Suc_eq_le intro: le_trans [OF diff_le_self])

text \<open>
  The loop over \<open>/depth[:\s=]+(\d+)/gi\<close> with \<open>parseInt(match[1])\<close>. Separators and
  digits are disjoint classes, so the greedy runs are the only way to match.
\<close>

definition is_digit :: "char \<Rightarrow> bool" where
  "is_digit c = (c \<in> set ''0123456789'')"

definition is_depth_sep :: "char \<Rightarrow> bool" where
  "is_depth_sep c = (c = CHR '':'' \<or> is_space c \<or> c = CHR ''='')"

definition parseInt :: "string \<Rightarrow> nat" where
  "parseInt ds = foldl (\<lambda>n c. 10 * n + (of_char c - 48)) 0 ds"

function depth_scan :: "string \<Rightarrow> nat list" where
  "depth_scan [] = []"
| "depth_scan (c # cs) =
     (let rest = drop 5 (c # cs);
          seps = takeWhile is_depth_sep rest;
          rest2 = drop (length seps) rest;
          ds = takeWhile is_digit rest2
      in if starts_ci ''depth'' (c # cs) \<and> seps \<noteq> [] \<and> ds \<noteq> []
         then parseInt ds # depth_scan (drop (length ds) rest2)
         else depth_scan cs)"
  by pat_completeness auto
termination
  by (relation "measure length") (auto simp: less_Suc_eq_le intro: le_trans [OF diff_le_self])

text \<open>\<open>/system\s*prompt/i\<close> somewhere in the text.\<close>

fun system_prompt_match :: "string \<Rightarrow> bool" where
  "system_prompt_match [] = False"
| "system_prompt_match (c # cs) =
     ((starts_ci ''system'' (c # cs) \<and> starts_ci ''prompt'' (dropWhile is_space (drop 6 (c # cs))))
      \<or> system_prompt_match cs)"

text \<open>\<open>detectContentPatterns(content)\<close>, part_001 lines 256-307.\<close>

definition detectContentPatterns :: "string \<Rightarrow> patterns" where
  "detectContentPatterns content =
     (if content = [] then
        \<lparr> hasLoreEntries = False, loreEntryNames = [], hasDepthMarkers = False, depthValues = [],
          hasSystemPrompt = False, hasChatHistory = False, hasCharacterCard = False,
          hasPersona = False \<rparr>
      else
        (let names = lore_entry_scan content @ alt_lore_scan content;
             depths = depth_scan content
         in \<lparr> hasLoreEntries = (names \<noteq> []),
              loreEntryNames = names,
              hasDepthMarkers = (depths \<noteq> []),
              depthValues = depths,
              hasSystemPrompt =
                (system_prompt_match content \<or> contains_ci ''you are'' content
                 \<or> contains_ci ''your role is'' content),
              hasChatHistory =
                (contains_ci ''[assistant]'' content \<or> contains_ci ''[human]'' content
                 \<or> contains_ci ''<msg>'' content \<or> contains_ci ''<message>'' content),
              hasCharacterCard =
                (contains_ci ''[character]'' content \<or> contains_ci ''{{char}}'' content
                 \<or> contains_ci ''<character>'' content \<or> contains_ci ''character card'' content),
              hasPersona =
                (contains_ci ''[user]'' content \<or> contains_ci ''{{user}}'' content
                 \<or> contains_ci ''<user>'' content \<or> contains_ci ''persona'' content) \<rparr>))"

section \<open>Miss Diagnoser\<close>

datatype lore_details =
    OrderDetails (prevOrder: "string list") (currOrder: "string list")
  | EntryDetails (added: "string list") (removed: "string list")

record lore_issue =
  type :: string
  message :: string
  recommendation :: string
  details :: lore_details

text \<open>The \<open>for\<close> loop over equally long lists: the first position with different names.\<close>

fun first_name_diff :: "string list \<Rightarrow> string list \<Rightarrow> (string \<times> string) option" where
  "first_name_diff (p # ps) (c # cs) = (if p \<noteq> c then Some (p, c) else first_name_diff ps cs)"
| "first_name_diff ps cs = None"

text \<open>
  \<open>detectLoreOrderingIssues(prevEntries, currEntries)\<close>, part_001 lines 312-358;
  \<open>None\<close> as an argument is \<open>null\<close>, \<open>None\<close> as the result is \<open>null\<close>.
\<close>

definition detectLoreOrderingIssues ::
  "string list option \<Rightarrow> string list option \<Rightarrow> lore_issue option" where
  \<open>detectLoreOrderingIssues prevEntries currEntries =
     (case (prevEntries, currEntries) of
        (Some pe, Some ce) \<Rightarrow>
          if pe = [] \<or> ce = [] then None
          else
            (let prevSet = set pe;
                 currSet = set ce;
                 sameEntries = (length pe = length ce \<and> list_all (\<lambda>e. e \<in> currSet) pe)
             in if sameEntries then
                  (case first_name_diff pe ce of
                     Some (p, c) \<Rightarrow>
                       Some \<lparr> type = ''reordering'',
                              message = ''Lorebook entries reordered ('' @ p @ '' '' @ arrow_both
                                        @ '' '' @ c @ '')'',
                              recommendation = ''Fix lorebook entry ordering: Set unique "Order" values for each entry to ensure deterministic sorting.'',
                              details = OrderDetails (take 5 pe) (take 5 ce) \<rparr>
                   | None \<Rightarrow> None)
                else
                  (let added' = filter (\<lambda>e. e \<notin> prevSet) ce;
                       removed' = filter (\<lambda>e. e \<notin> currSet) pe
                   in if added' \<noteq> [] \<or> removed' \<noteq> [] then
                        Some \<lparr> type = ''different_entries'',
                               message = ''Different lorebook entries triggered'',
                               recommendation = ''If entries change due to keywords, this is expected. For stable caching, set frequently-used entries to "Constant" mode.'',
                               details = EntryDetails added' removed' \<rparr>
                      else None))
      | _ \<Rightarrow> None)\<close>

record location_analysis =
  location :: string
  likelyCause :: "string option"
  recommendation :: "string option"
  severity :: string
  details :: "lore_details option"

text \<open>
  \<open>divergeIndex / totalMessages < c\<close>. The quotient is taken in exact arithmetic; for
  \<open>totalMessages = 0\<close> JavaScript gives \<open>NaN\<close> or an infinity, and the comparison holds
  only for minus infinity.
\<close>

definition ratio_less :: "int \<Rightarrow> nat \<Rightarrow> rat \<Rightarrow> bool" where
  "ratio_less i n c = (if n = 0 then i < 0 else of_int i / of_nat n < c)"

text \<open>\<open>p?.hasLoreEntries\<close> and \<open>p?.hasDepthMarkers\<close> as conditions, \<open>p?.loreEntryNames || []\<close>.\<close>

definition has_lore :: "patterns option \<Rightarrow> bool" where
  "has_lore p = (case p of None \<Rightarrow> False | Some q \<Rightarrow> hasLoreEntries q)"

definition has_depth :: "patterns option \<Rightarrow> bool" where
  "has_depth p = (case p of None \<Rightarrow> False | Some q \<Rightarrow> hasDepthMarkers q)"

definition names_or_empty :: "patterns option \<Rightarrow> string list" where
  "names_or_empty p = (case p of None \<Rightarrow> [] | Some q \<Rightarrow> loreEntryNames q)"

text \<open>
  Lines 378-383: in the early branch the lore issue is looked for when either side has
  lorebook entries.
\<close>

definition early_lore_issue :: "patterns option \<Rightarrow> patterns option \<Rightarrow> lore_issue option" where
  "early_lore_issue prevP currP =
     (if has_lore prevP \<or> has_lore currP
      then detectLoreOrderingIssues (Some (names_or_empty prevP)) (Some (names_or_empty currP))
      else None)"

text \<open>
  \<open>analyzeDivergenceLocation\<close>, part_001 lines 363-428. The two content arguments are
  not read by the source and are left out.
\<close>

definition analyzeDivergenceLocation ::
  "int \<Rightarrow> nat \<Rightarrow> patterns option \<Rightarrow> patterns option \<Rightarrow> location_analysis" where
  \<open>analyzeDivergenceLocation divergeIdx totalMessages prevPatterns currPatterns =
     (if ratio_less divergeIdx totalMessages (2 / 10) \<or> divergeIdx < 3 then
        (case early_lore_issue prevPatterns currPatterns of
           Some loreIssue \<Rightarrow>
             \<lparr> location = ''early'',
               likelyCause = Some (if lore_issue.type loreIssue = ''reordering''
                                   then ''lorebook_ordering'' else ''lorebook_keywords''),
               recommendation = Some (lore_issue.recommendation loreIssue),
               severity = (if lore_issue.type loreIssue = ''reordering'' then ''high'' else ''medium''),
               details = Some (lore_issue.details loreIssue) \<rparr>
         | None \<Rightarrow>
             if has_depth prevPatterns \<or> has_depth currPatterns then
               \<lparr> location = ''early'',
                 likelyCause = Some ''depth_configuration'',
                 recommendation = Some ''Check preset depth settings. Entries with depth > 0 are inserted relative to chat history, causing instability. Set constant entries to depth 0.'',
                 severity = ''high'',
                 details = None \<rparr>
             else
               \<lparr> location = ''early'',
                 likelyCause = Some ''system_prompt_change'',
                 recommendation = Some ''Early prompt content changed. Check: system prompt, character card, or author's notes injected at top.'',
                 severity = ''medium'',
                 details = None \<rparr>)
      else if ratio_less divergeIdx totalMessages (8 / 10) then
        (if has_lore prevPatterns \<or> has_lore currPatterns then
           \<lparr> location = ''middle'',
             likelyCause = Some ''lorebook_depth_injection'',
             recommendation = Some ''Lorebook entries injected at non-zero depth cause instability. Set all constant entries to depth 0 for better caching.'',
             severity = ''high'',
             details = None \<rparr>
         else
           \<lparr> location = ''middle'',
             likelyCause = Some ''injected_content'',
             recommendation = Some ''Content injected mid-prompt (author's notes, world info, etc.). Check depth settings in your preset.'',
             severity = ''medium'',
             details = None \<rparr>)
      else
        \<lparr> location = ''late'',
          likelyCause = Some ''chat_history'',
          recommendation = Some ''Change is in recent chat history - this is expected behavior.'',
          severity = ''low'',
          details = None \<rparr>)\<close>

record recommendation_entry =
  priority :: nat
  type :: "string option"
  message :: string
  severity :: string
  actionable :: "string option"

record primary_diagnosis =
  issue :: string
  icon :: string
  color :: string
  shortMessage :: string
  action :: "string option"

record miss_analysis =
  reasons :: "string list"
  divergence :: "divergence_point option"
  ttlWarning :: bool
  timeSinceLastRequest :: "int option"
  locationAnalysis :: "location_analysis option"
  loreIssue :: "lore_issue option"
  recommendations :: "recommendation_entry list"
  primaryDiagnosis :: "primary_diagnosis option"
  prevPatterns :: "patterns option"
  currPatterns :: "patterns option"

text \<open>
  \<open>generateSmartRecommendations(analysis)\<close>, part_001 lines 433-471.
  \<open>Array.prototype.sort\<close> is stable, as \<open>sort_key\<close> is.
\<close>

definition generateSmartRecommendations :: "miss_analysis \<Rightarrow> recommendation_entry list" where
  "generateSmartRecommendations a =
     sort_key priority
       ((case locationAnalysis a of
           None \<Rightarrow> []
         | Some la \<Rightarrow>
             (case location_analysis.recommendation la of
                None \<Rightarrow> []
              | Some r \<Rightarrow>
                  if r = [] then []
                  else [\<lparr> priority = 1, type = likelyCause la, message = r,
                          severity = location_analysis.severity la, actionable = None \<rparr>]))
        @ (if ttlWarning a then
             [\<lparr> priority = 2, type = Some ''ttl_expired'',
                message = ''Cache expired due to 5-minute TTL. Send messages more frequently to maintain cache.'',
                severity = ''medium'', actionable = None \<rparr>]
           else [])
        @ (case loreIssue a of
             None \<Rightarrow> []
           | Some li \<Rightarrow>
               [\<lparr> priority = 1, type = Some (lore_issue.type li), message = lore_issue.message li,
                  severity = (if lore_issue.type li = ''reordering'' then ''high'' else ''medium''),
                  actionable = Some (lore_issue.recommendation li) \<rparr>]))"

text \<open>
  The single previous-request snapshot. \<open>None\<close> is \<open>null\<close>; the time stamp is a value
  of \<open>Date.now()\<close>, milliseconds since the epoch.
\<close>

record previous_request =
  messages :: "message list option"
  messageHashes :: "fingerprint list option"
  systemPrompt :: "message option"
  systemPromptHash :: "string option"
  timestamp :: "int option"

definition no_previous_request :: previous_request where
  "no_previous_request =
     \<lparr> messages = None, messageHashes = None, systemPrompt = None, systemPromptHash = None,
       timestamp = None \<rparr>"

text \<open>The icons of the primary diagnoses, as UTF-8 bytes.\<close>

definition icon_bytes :: "nat list \<Rightarrow> string" where
  "icon_bytes ns = map char_of ns"

text \<open>The \<open>if\<close>/\<open>else if\<close> chain of \<open>analyzeCacheMiss\<close> that selects the primary diagnosis.\<close>

definition select_primary ::
  "lore_issue option \<Rightarrow> location_analysis \<Rightarrow> primary_diagnosis option" where
  \<open>select_primary li la =
     (if map_option lore_issue.type li = Some ''reordering'' then
        Some \<lparr> issue = ''Lorebook Ordering Issue'',
               icon = icon_bytes [0xF0, 0x9F, 0x93, 0x9A],
               color = ''#f87171'',
               shortMessage = ''Lorebook entries are reordering between requests'',
               action = Some ''Set unique Order values for each lorebook entry'' \<rparr>
      else if map_option lore_issue.type li = Some ''different_entries'' then
        Some \<lparr> issue = ''Different Lorebook Entries'',
               icon = icon_bytes [0xF0, 0x9F, 0x93, 0x96],
               color = ''#fbbf24'',
               shortMessage = ''Different lorebook entries triggered by keywords'',
               action = Some ''Set frequently-used entries to Constant mode'' \<rparr>
      else if likelyCause la = Some ''depth_configuration'' then
        Some \<lparr> issue = ''Depth Configuration Issue'',
               icon = icon_bytes [0xE2, 0xAC, 0x87, 0xEF, 0xB8, 0x8F],
               color = ''#f87171'',
               shortMessage = ''Content at non-zero depth causing instability'',
               action = Some ''Set constant entries to depth 0 in lorebook settings'' \<rparr>
      else if likelyCause la = Some ''lorebook_depth_injection'' then
        Some \<lparr> issue = ''Lorebook Depth Issue'',
               icon = icon_bytes [0xF0, 0x9F, 0x93, 0x8D],
               color = ''#f87171'',
               shortMessage = ''Lorebook injected mid-prompt at non-zero depth'',
               action = Some ''Set lorebook entries to depth 0 and position "@ Depth"'' \<rparr>
      else if location la = ''late'' then
        Some \<lparr> issue = ''Chat History Change'',
               icon = icon_bytes [0xF0, 0x9F, 0x92, 0xAC],
               color = ''#4ade80'',
               shortMessage = ''Normal - new messages added to history'',
               action = None \<rparr>
      else if location la = ''early'' then
        Some \<lparr> issue = ''Early Prompt Instability'',
               icon = icon_bytes [0xE2, 0x9A, 0xA0, 0xEF, 0xB8, 0x8F],
               color = ''#fbbf24'',
               shortMessage = ''System prompt or early content changed'',
               action = Some ''Check character card, system prompt, and author's notes'' \<rparr>
      else None)\<close>

text \<open>\<open>Math.round(ms / 1000)\<close> for an integer number of milliseconds: halves round up.\<close>

definition round_seconds :: "int \<Rightarrow> int" where
  "round_seconds ms = (ms + 500) div 1000"

text \<open>
  \<open>analyzeCacheMiss(currentMessages, currentHashes)\<close>, part_001 lines 476-604. The
  global \<open>previousRequest\<close> and the value of \<open>Date.now()\<close> are arguments. The analysis
  is built in three steps, as the source fills it: the TTL check, the divergence
  check, the system-prompt check; the recommendations come last.
\<close>

definition empty_analysis :: miss_analysis where
  "empty_analysis =
     \<lparr> reasons = [], divergence = None, ttlWarning = False, timeSinceLastRequest = None,
       locationAnalysis = None, loreIssue = None, recommendations = [],
       primaryDiagnosis = None, prevPatterns = None, currPatterns = None \<rparr>"

definition ttl_reason :: "int \<Rightarrow> string" where
  "ttl_reason timeSince =
     ''TTL expired ('' @ show_int (round_seconds timeSince) @ ''s since last request, max 300s)''"

definition ttl_check :: "previous_request \<Rightarrow> int \<Rightarrow> miss_analysis" where
  "ttl_check prev now =
     (case timestamp prev of
        None \<Rightarrow> empty_analysis\<lparr> reasons := [''First request - no previous cache''] \<rparr>
      | Some t \<Rightarrow>
          if t = 0 then empty_analysis\<lparr> reasons := [''First request - no previous cache''] \<rparr>
          else
            (let timeSince = now - t in
             if 300000 < timeSince then
               empty_analysis\<lparr> timeSinceLastRequest := Some timeSince,
                                reasons := [ttl_reason timeSince],
                                ttlWarning := True \<rparr>
             else empty_analysis\<lparr> timeSinceLastRequest := Some timeSince \<rparr>))"

definition divergence_check ::
  "previous_request \<Rightarrow> fingerprint list \<Rightarrow> miss_analysis \<Rightarrow> miss_analysis" where
  "divergence_check prev currentHashes a =
     (case messageHashes prev of
        None \<Rightarrow> a
      | Some prevHashes \<Rightarrow>
          (let dv = findDivergencePoint (Some prevHashes) (Some currentHashes);
               a1 = a\<lparr> divergence := Some dv \<rparr>
           in if 0 \<le> divergeIndex dv then
                (let prevC = (case prevContent dv of None \<Rightarrow> [] | Some s \<Rightarrow> s);
                     currC = (case currContent dv of None \<Rightarrow> [] | Some s \<Rightarrow> s);
                     pp = detectContentPatterns prevC;
                     cp = detectContentPatterns currC;
                     li = (if hasLoreEntries pp \<or> hasLoreEntries cp
                           then detectLoreOrderingIssues (Some (loreEntryNames pp))
                                  (Some (loreEntryNames cp))
                           else None);
                     la = analyzeDivergenceLocation (divergeIndex dv) (length currentHashes)
                            (Some pp) (Some cp)
                 in a1\<lparr> reasons := reasons a1 @ [reason dv],
                       prevPatterns := Some pp,
                       currPatterns := Some cp,
                       loreIssue := li,
                       locationAnalysis := Some la,
                       primaryDiagnosis := select_primary li la \<rparr>)
              else a1))"

definition system_prompt_check ::
  "previous_request \<Rightarrow> message list option \<Rightarrow> miss_analysis \<Rightarrow> miss_analysis" where
  "system_prompt_check prev currentMessages a =
     (case currentMessages of
        Some (firstMsg # rest) \<Rightarrow>
          if js_get (JObj firstMsg) ''role'' = JStr ''system'' then
            (let currSysHash = hashString (stringify_message firstMsg) in
             case systemPromptHash prev of
               Some h \<Rightarrow>
                 if h \<noteq> [] \<and> h \<noteq> currSysHash
                 then a\<lparr> reasons := reasons a @ [''System prompt changed''] \<rparr>
                 else a
             | None \<Rightarrow> a)
          else a
      | _ \<Rightarrow> a)"

definition analyzeCacheMiss ::
  "previous_request \<Rightarrow> int \<Rightarrow> message list option \<Rightarrow> fingerprint list \<Rightarrow> miss_analysis" where
  "analyzeCacheMiss prev now currentMessages currentHashes =
     (let a = system_prompt_check prev currentMessages
                (divergence_check prev currentHashes (ttl_check prev now))
      in a\<lparr> recommendations := generateSmartRecommendations a \<rparr>)"

section \<open>Cost Model\<close>

record cost_breakdown =
  inputCost :: rat
  outputCost :: rat
  cacheWriteCost :: rat
  cacheReadCost :: rat
  totalCost :: rat
  costWithoutCache :: rat
  savings :: rat

text \<open>
  The price tier of a model: input, output, cache-write and cache-read price per million
  tokens, chosen by the \<open>if\<close>/\<open>else if\<close> chain of \<open>calculateCosts\<close>; the Sonnet prices
  are the default.
\<close>

definition price_tier :: "string \<Rightarrow> rat \<times> rat \<times> rat \<times> rat" where
  "price_tier m =
     (if contains_ci ''opus-4-5'' m \<or> contains_ci ''opus-4.5'' m then (5.0, 25.0, 6.25, 0.50)
      else if contains_ci ''opus-4-1'' m \<or> contains_ci ''opus-4.1'' m then (15.0, 75.0, 18.75, 1.50)
      else if contains_ci ''opus'' m then (5.0, 25.0, 6.25, 0.50)
      else if contains_ci ''haiku-4-5'' m \<or> contains_ci ''haiku-4.5'' m then (1.0, 5.0, 1.25, 0.10)
      else if contains_ci ''haiku'' m then (0.80, 4.0, 1.0, 0.08)
      else (3.0, 15.0, 3.75, 0.30))"

text \<open>\<open>nonCachedInput\<close> of \<open>calculateCosts\<close>: \<open>Math.max(0, inputTokens - cacheRead)\<close>.\<close>

definition nonCachedInput :: "(string, int) usage_record \<Rightarrow> int" where
  "nonCachedInput u = max 0 (input_tokens u - cache_read_input_tokens u)"

text \<open>
  \<open>calculateCosts(usage)\<close>, part_001 lines 800-873, in exact rational arithmetic. The
  token counts are numbers, so \<open>usage.x || 0\<close> is \<open>usage.x\<close>.
\<close>

definition calculateCosts :: "(string, int) usage_record \<Rightarrow> cost_breakdown" where
  "calculateCosts u =
     (case price_tier (model u) of
        (inputPrice, outputPrice, cacheWritePrice, cacheReadPrice) \<Rightarrow>
          (let inputTokens = input_tokens u;
               outputTokens = output_tokens u;
               cacheRead = cache_read_input_tokens u;
               cacheWrite = cache_creation_input_tokens u;
               inputCost' = (of_int (nonCachedInput u) / 1000000) * inputPrice;
               outputCost' = (of_int outputTokens / 1000000) * outputPrice;
               cacheWriteCost' = (of_int cacheWrite / 1000000) * cacheWritePrice;
               cacheReadCost' = (of_int cacheRead / 1000000) * cacheReadPrice;
               totalCost' = inputCost' + outputCost' + cacheWriteCost' + cacheReadCost';
               costWithoutCache' = ((of_int inputTokens / 1000000) * inputPrice) + outputCost'
           in \<lparr> inputCost = inputCost', outputCost = outputCost',
                cacheWriteCost = cacheWriteCost', cacheReadCost = cacheReadCost',
                totalCost = totalCost', costWithoutCache = costWithoutCache',
                savings = costWithoutCache' - totalCost' \<rparr>))"

section \<open>Session Aggregator\<close>

type_synonym usage = "(string, int) usage_record"

record history_entry =
  timestamp :: int
  responseTimeMs :: int
  usage :: usage
  cacheHit :: bool
  cacheWrite :: bool
  costs :: cost_breakdown
  analysis :: "miss_analysis option"
  messageHashes :: "fingerprint list"
  messageCount :: nat

record session_stats =
  totalRequests :: nat
  cacheHits :: nat
  cacheMisses :: nat
  consecutiveMisses :: nat
  totalInputTokens :: int
  totalCacheReadTokens :: int
  totalCacheWriteTokens :: int
  lastUsage :: "usage option"
  requestHistory :: "history_entry list"

record current_request =
  active :: bool
  startTime :: "int option"
  usage :: "usage option"
  messages :: "message list option"

text \<open>The two settings that \<open>processUsageData\<close> reads.\<close>

record settings =
  autoPauseOnWaste :: bool
  wasteThreshold :: int

text \<open>
  The globals of the module, with the warnings that \<open>toastr.warning\<close> has shown so far
  (oldest first). \<open>settings = None\<close> is an undefined \<open>extension_settings[extensionName]\<close>.
\<close>

record state =
  sessionStats :: session_stats
  currentRequest :: current_request
  previousRequest :: previous_request
  detectedClaudeUsage :: bool
  settings :: "settings option"
  warnings :: "string list"

definition initial_state :: "settings option \<Rightarrow> state" where
  "initial_state cfg =
     \<lparr> sessionStats =
         \<lparr> totalRequests = 0, cacheHits = 0, cacheMisses = 0, consecutiveMisses = 0,
           totalInputTokens = 0, totalCacheReadTokens = 0, totalCacheWriteTokens = 0,
           lastUsage = None, requestHistory = [] \<rparr>,
       currentRequest = \<lparr> active = False, startTime = None, usage = None, messages = None \<rparr>,
       previousRequest = no_previous_request,
       detectedClaudeUsage = False,
       settings = cfg,
       warnings = [] \<rparr>"

text \<open>\<open>/claude/i.test(model)\<close>.\<close>

definition isClaude :: "string \<Rightarrow> bool" where
  "isClaude m = contains_ci ''claude'' m"

definition hadCacheRead :: "usage \<Rightarrow> bool" where
  "hadCacheRead u = (0 < cache_read_input_tokens u)"

definition hadCacheWrite :: "usage \<Rightarrow> bool" where
  "hadCacheWrite u = (0 < cache_creation_input_tokens u)"

text \<open>Lines 720-732: the running sums, then the hit / write-miss classification.\<close>

definition update_counters :: "usage \<Rightarrow> session_stats \<Rightarrow> session_stats" where
  "update_counters u ss =
     (let ss1 = ss\<lparr> totalRequests := totalRequests ss + 1,
                     totalInputTokens := totalInputTokens ss + input_tokens u,
                     totalCacheReadTokens := totalCacheReadTokens ss + cache_read_input_tokens u,
                     totalCacheWriteTokens :=
                       totalCacheWriteTokens ss + cache_creation_input_tokens u,
                     lastUsage := Some u \<rparr>
      in if hadCacheRead u then
           ss1\<lparr> cacheHits := cacheHits ss1 + 1, consecutiveMisses := 0 \<rparr>
         else if hadCacheWrite u then
           ss1\<lparr> cacheMisses := cacheMisses ss1 + 1,
                consecutiveMisses := consecutiveMisses ss1 + 1 \<rparr>
         else ss1)"

text \<open>Lines 735-758: the entry pushed onto the history.\<close>

definition new_entry ::
  "previous_request \<Rightarrow> current_request \<Rightarrow> int \<Rightarrow> usage \<Rightarrow> fingerprint list \<Rightarrow> history_entry" where
  "new_entry prev cr now u currentHashes =
     \<lparr> history_entry.timestamp = now,
       responseTimeMs =
         (case startTime cr of None \<Rightarrow> 0 | Some t \<Rightarrow> if t = 0 then 0 else now - t),
       history_entry.usage = u,
       cacheHit = hadCacheRead u,
       cacheWrite = hadCacheWrite u,
       costs = calculateCosts u,
       analysis =
         (if hadCacheWrite u \<and> \<not> hadCacheRead u
          then Some (analyzeCacheMiss prev now (current_request.messages cr) currentHashes)
          else None),
       history_entry.messageHashes = currentHashes,
       messageCount = (case current_request.messages cr of None \<Rightarrow> 0 | Some ms \<Rightarrow> length ms) \<rparr>"

text \<open>Lines 764-774: the snapshot stored when the request's messages were captured.\<close>

definition is_system :: "message \<Rightarrow> bool" where
  "is_system m = (js_get (JObj m) ''role'' = JStr ''system'')"

definition update_previous ::
  "current_request \<Rightarrow> int \<Rightarrow> fingerprint list \<Rightarrow> previous_request \<Rightarrow> previous_request" where
  "update_previous cr now currentHashes prev =
     (case current_request.messages cr of
        None \<Rightarrow> prev
      | Some ms \<Rightarrow>
          \<lparr> previous_request.messages = Some ms,
            previous_request.messageHashes = Some currentHashes,
            systemPrompt = (case ms of m # _ \<Rightarrow> if is_system m then Some m else None | [] \<Rightarrow> None),
            systemPromptHash =
              (case ms of
                 m # _ \<Rightarrow> if is_system m then Some (hashString (stringify_message m)) else None
               | [] \<Rightarrow> None),
            previous_request.timestamp = Some now \<rparr>)"

text \<open>Lines 776-778: one entry is dropped from the front once there are more than 100.\<close>

definition trim_history :: "history_entry list \<Rightarrow> history_entry list" where
  "trim_history h = (if 100 < length h then tl h else h)"

text \<open>Lines 781-788: the waste warning.\<close>

definition warning_text :: "nat \<Rightarrow> string" where
  "warning_text misses = show_nat misses @ '' consecutive cache misses. Check prompt stability.''"

definition waste_warning :: "settings option \<Rightarrow> nat \<Rightarrow> string list" where
  "waste_warning cfg misses =
     (case cfg of
        None \<Rightarrow> []
      | Some s \<Rightarrow>
          if autoPauseOnWaste s \<and> wasteThreshold s \<le> int misses then [warning_text misses]
          else [])"

datatype outcome = Returned | Threw js_error

text \<open>
  \<open>processUsageData(usage)\<close>, part_001 lines 699-794, on the state of the module and
  the value \<open>now\<close> of \<open>Date.now()\<close> (read once for the call). \<open>None\<close> is a missing
  \<open>usage\<close>. An exception of \<open>hashMessages\<close> leaves the function after the counters
  were updated and before the history is touched. \<open>updateDailyStats\<close>,
  \<open>saveUsageToMessage\<close> and \<open>updatePanel\<close> write to the local storage, to the host's
  chat record and to the page; they do not touch this state and are left out.
\<close>

definition processUsageData :: "state \<Rightarrow> int \<Rightarrow> usage option \<Rightarrow> outcome \<times> state" where
  "processUsageData st now usage' =
     (case usage' of
        None \<Rightarrow> (Returned, st)
      | Some u \<Rightarrow>
          if \<not> isClaude (model u) then (Returned, st)
          else
            (let cr = (currentRequest st)\<lparr> usage := Some u \<rparr>;
                 st1 = st\<lparr> detectedClaudeUsage := True,
                          currentRequest := cr,
                          sessionStats := update_counters u (sessionStats st) \<rparr>
             in case hashMessages (current_request.messages cr) of
                  Inl e \<Rightarrow> (Threw e, st1)
                | Inr currentHashes \<Rightarrow>
                    (let entry = new_entry (previousRequest st1) cr now u currentHashes;
                         ss2 = (sessionStats st1)
                                 \<lparr> requestHistory := requestHistory (sessionStats st1) @ [entry] \<rparr>;
                         prev' = update_previous cr now currentHashes (previousRequest st1);
                         ss3 = ss2\<lparr> requestHistory := trim_history (requestHistory ss2) \<rparr>;
                         w = waste_warning (settings st1) (consecutiveMisses ss3)
                     in (Returned,
                         st1\<lparr> sessionStats := ss3,
                              previousRequest := prev',
                              warnings := warnings st1 @ w \<rparr>))))"

text \<open>
  The module's state over time. The fetch interceptor starts a request (part_001 lines
  1294-1297: it records the start time and the \<open>messages\<close> of the request body, \<open>null\<close>
  when there are none), hands every usage record it finds to \<open>processUsageData\<close>, and
  marks the request inactive when the stream ends.
\<close>

datatype event =
    Begin int "message list option"
  | Usage int "usage option"
  | Finish

fun step :: "state \<Rightarrow> event \<Rightarrow> state" where
  "step st (Begin now msgs) =
     st\<lparr> currentRequest :=
           \<lparr> active = True, startTime = Some now, usage = None, messages = msgs \<rparr> \<rparr>"
| "step st (Usage now u) = snd (processUsageData st now u)"
| "step st Finish = st\<lparr> currentRequest := (currentRequest st)\<lparr> active := False \<rparr> \<rparr>"

definition run :: "state \<Rightarrow> event list \<Rightarrow> state" where
  "run st evs = foldl step st evs"

text \<open>
  The entries that a call pushes onto the history (one or none), and all the entries
  pushed while a list of events is processed, oldest first.
\<close>

fun pushed_by :: "state \<Rightarrow> event \<Rightarrow> history_entry list" where
  "pushed_by st (Usage now (Some u)) =
     (if isClaude (model u) then
        (case hashMessages (current_request.messages (currentRequest st)) of
           Inl e \<Rightarrow> []
         | Inr currentHashes \<Rightarrow>
             [new_entry (previousRequest st) ((currentRequest st)\<lparr> usage := Some u \<rparr>) now u
                currentHashes])
      else [])"
| "pushed_by st ev = []"

fun pushed :: "state \<Rightarrow> event list \<Rightarrow> history_entry list" where
  "pushed st [] = []"
| "pushed st (ev # evs) = pushed_by st ev @ pushed (step st ev) evs"

text \<open>An example fingerprint with a given hash, and an example usage record.\<close>

definition fp :: "string \<Rightarrow> fingerprint" where
  "fp h = \<lparr> index = 0, role = JStr ''user'', contentPreview = h, fullContent = h, hash = h,
            hasCacheControl = False \<rparr>"

definition claude_usage :: "int \<Rightarrow> int \<Rightarrow> usage" where
  "claude_usage r w =
     \<lparr> model = ''claude-sonnet-4-5'', input_tokens = 1000, output_tokens = 10,
       cache_read_input_tokens = r, cache_creation_input_tokens = w \<rparr>"

text \<open>
  Example patterns: what the detector reports for a content that holds the given
  lorebook entries, with or without a depth directive.
\<close>

definition example_patterns :: "string list \<Rightarrow> bool \<Rightarrow> patterns" where
  "example_patterns names depth =
     \<lparr> hasLoreEntries = (names \<noteq> []), loreEntryNames = names, hasDepthMarkers = depth,
       depthValues = (if depth then [2] else []), hasSystemPrompt = False,
       hasChatHistory = False, hasCharacterCard = False, hasPersona = False \<rparr>"

text \<open>A reason that reports an expired TTL: it starts with the words \<open>TTL expired\<close>.\<close>

definition is_ttl_reason :: "string \<Rightarrow> bool" where
  "is_ttl_reason r = (take 11 r = ''TTL expired'')"

text \<open>
  The file index.js holds three earlier revisions of the module one after the other.
  Lines 110-131 are the counter update of the first revision of \<open>processUsageData\<close>,
  which does not look at a model name (its usage records have none; the interceptor asks
  the host's settings instead) and has a third branch for a record without cache
  activity. The later revisions, from index.js line 711 on, are as in part_001.
\<close>

definition update_counters_v1 :: "usage \<Rightarrow> session_stats \<Rightarrow> session_stats" where
  "update_counters_v1 u ss =
     (let ss1 = ss\<lparr> totalRequests := totalRequests ss + 1,
                     totalInputTokens := totalInputTokens ss + input_tokens u,
                     totalCacheReadTokens := totalCacheReadTokens ss + cache_read_input_tokens u,
                     totalCacheWriteTokens :=
                       totalCacheWriteTokens ss + cache_creation_input_tokens u,
                     lastUsage := Some u \<rparr>
      in if hadCacheRead u then
           ss1\<lparr> cacheHits := cacheHits ss1 + 1, consecutiveMisses := 0 \<rparr>
         else if hadCacheWrite u then
           ss1\<lparr> cacheMisses := cacheMisses ss1 + 1,
                consecutiveMisses := consecutiveMisses ss1 + 1 \<rparr>
         else ss1\<lparr> consecutiveMisses := consecutiveMisses ss1 + 1 \<rparr>)"

text \<open>
  A message object without a \<open>content\<close> property, and a session in which one of 101
  accepted records belongs to a request that carries such a message: a first request
  without messages and its record, a second request with the message and its record, a
  third request without messages and 99 records of its stream.
\<close>

definition message_without_content :: message where
  "message_without_content = [(''role'', JStr ''user'')]"

definition throwing_session :: "event list" where
  "throwing_session =
     Begin 900 None # Usage 1000 (Some (claude_usage 500 0))
     # Begin 2000 (Some [message_without_content]) # Usage 3000 (Some (claude_usage 500 0))
     # Begin 4000 None # replicate 99 (Usage 5000 (Some (claude_usage 500 0)))"

section \<open>Properties of the Usage Extractor\<close>

text \<open>
  Once \<open>data.usage\<close> is truthy the first \<open>if\<close> returns, whatever \<open>data.type\<close> is: the
  branch for \<open>message_delta\<close> events, which would name the model \<open>claude\<close>, is never
  taken.
\<close>

lemma parseUsageFromEvent_usage_first:
  assumes "truthy (js_get data ''usage'')"
  shows "map_option model (parseUsageFromEvent (Some data))
           = Some (js_or (js_get data ''model'') (JStr ''''))"
proof -
  from assms have "data \<noteq> JNull" by auto
  with assms show ?thesis by (simp add: parseUsageFromEvent_def Let_def)
qed

text \<open>
  C1. The claim is that a payload matching several shapes is read as a streaming delta
  event first, then as a stream-start event, then as a generic usage object. The source
  tests the generic usage object first. A native delta event
  \<open>{"type": "message_delta", "usage": {"input_tokens": 10, "output_tokens": 5,
  "cache_read_input_tokens": 500}}\<close> is therefore read as a generic usage object: its
  model is the empty string, not \<open>claude\<close>.
\<close>

theorem parseUsageFromEvent_delta_read_as_generic:
  "parseUsageFromEvent
     (Some (JObj [(''type'', JStr ''message_delta''),
                  (''usage'', JObj [(''input_tokens'', JNum 10), (''output_tokens'', JNum 5),
                                    (''cache_read_input_tokens'', JNum 500)])]))
   = Some \<lparr> model = JStr '''', input_tokens = JNum 10, output_tokens = JNum 5,
            cache_read_input_tokens = JNum 500, cache_creation_input_tokens = JNum 0 \<rparr>"
  by (simp add: parseUsageFromEvent_def js_or_def js_get_opt_def)

section \<open>Properties of the Divergence Locator\<close>

lemma first_hash_diff_SomeD:
  "first_hash_diff k ps cs = Some (i, p, c) \<Longrightarrow>
     \<exists>j. i = k + j \<and> j < length ps \<and> j < length cs \<and> p = ps ! j \<and> c = cs ! j
         \<and> hash p \<noteq> hash c \<and> (\<forall>m<j. hash (ps ! m) = hash (cs ! m))"
proof (induction k ps cs rule: first_hash_diff.induct)
  case (1 k p' ps c' cs)
  show ?case
  proof (cases "hash p' \<noteq> hash c'")
    case True
    with 1(2) have "i = k" "p = p'" "c = c'" by simp_all
    with True show ?thesis by (intro exI [of _ 0]) simp
  next
    case False
    with 1(2) have "first_hash_diff (Suc k) ps cs = Some (i, p, c)" by simp
    from 1(1) [OF _ this] False obtain j where
      j: "i = Suc k + j" "j < length ps" "j < length cs" "p = ps ! j" "c = cs ! j"
         "hash p \<noteq> hash c" "\<forall>m<j. hash (ps ! m) = hash (cs ! m)"
      by auto
    show ?thesis
    proof (intro exI [of _ "Suc j"] conjI allI impI)
      fix m assume "m < Suc j"
      then show "hash ((p' # ps) ! m) = hash ((c' # cs) ! m)"
        using False j(7) by (cases m) auto
    qed (use j in simp_all)
  qed
qed simp_all

lemma first_hash_diff_None_iff:
  "first_hash_diff k ps cs = None \<longleftrightarrow>
     (\<forall>j. j < length ps \<and> j < length cs \<longrightarrow> hash (ps ! j) = hash (cs ! j))"
proof (induction k ps cs rule: first_hash_diff.induct)
  case (1 k p' ps c' cs)
  show ?case
  proof (cases "hash p' \<noteq> hash c'")
    case True
    then show ?thesis by (auto intro: exI [of _ 0])
  next
    case False
    have "(\<forall>j. j < length (p' # ps) \<and> j < length (c' # cs) \<longrightarrow> hash ((p' # ps) ! j) = hash ((c' # cs) ! j))
          \<longleftrightarrow> (\<forall>j. j < length ps \<and> j < length cs \<longrightarrow> hash (ps ! j) = hash (cs ! j))"
      using False by (auto simp: nth_Cons split: nat.splits)
    with 1 False show ?thesis by simp
  qed
qed simp_all

lemma findDivergencePoint_at_first_difference:
  assumes "i < length ps" "i < length cs" "hash (ps ! i) \<noteq> hash (cs ! i)"
    and "\<forall>j<i. hash (ps ! j) = hash (cs ! j)"
  shows "divergeIndex (findDivergencePoint (Some ps) (Some cs)) = int i"
proof -
  have "first_hash_diff 0 ps cs \<noteq> None"
    using assms by (auto simp: first_hash_diff_None_iff)
  then obtain i' p c where s: "first_hash_diff 0 ps cs = Some (i', p, c)"
    by (cases "first_hash_diff 0 ps cs") auto
  from first_hash_diff_SomeD [OF s] have
    "i' < length ps" "i' < length cs" "hash (ps ! i') \<noteq> hash (cs ! i')"
    "\<forall>m<i'. hash (ps ! m) = hash (cs ! m)"
    by auto
  with assms have "i' = i" by (metis nat_neq_iff)
  with s show ?thesis by (simp add: findDivergencePoint_def Let_def)
qed

lemma findDivergencePoint_no_hash_difference:
  assumes "\<forall>j. j < length ps \<and> j < length cs \<longrightarrow> hash (ps ! j) = hash (cs ! j)"
  shows "findDivergencePoint (Some ps) (Some cs) =
           (if length ps \<noteq> length cs then
              \<lparr> divergeIndex = int (min (length ps) (length cs)),
                reason = ''Message count changed ('' @ show_nat (length ps) @ '' ''
                         @ arrow_right @ '' '' @ show_nat (length cs) @ '')'',
                prevContent = None, currContent = None, diff = None, role_d = None \<rparr>
            else
              \<lparr> divergeIndex = - 1, reason = ''No divergence detected'',
                prevContent = None, currContent = None, diff = None, role_d = None \<rparr>)"
proof -
  from assms have "first_hash_diff 0 ps cs = None" by (simp add: first_hash_diff_None_iff)
  then show ?thesis by (simp add: findDivergencePoint_def)
qed

text \<open>
  C4. For every pair of fingerprint sequences \<open>findDivergencePoint\<close> returns the
  smallest index at which the hashes differ, whatever the later messages are; when all
  hashes up to the shorter length agree and the lengths differ, it returns the shorter
  length with the reason "Message count changed" and no content diff; when the lengths
  are equal as well, it returns \<open>-1\<close> with the reason "No divergence detected". So
  \<open>[A,B,C]\<close> against \<open>[A,B,D]\<close> gives index 2, \<open>[A,B]\<close> against \<open>[A,B,C]\<close> a changed
  message count at index 2, and \<open>[A,B]\<close> against \<open>[A,B]\<close> no divergence.
\<close>

theorem findDivergencePoint_first_difference:
  "(\<forall>i. i < length ps \<and> i < length cs \<and> hash (ps ! i) \<noteq> hash (cs ! i)
        \<and> (\<forall>j<i. hash (ps ! j) = hash (cs ! j))
        \<longrightarrow> divergeIndex (findDivergencePoint (Some ps) (Some cs)) = int i)
   \<and> ((\<forall>j. j < length ps \<and> j < length cs \<longrightarrow> hash (ps ! j) = hash (cs ! j))
        \<and> length ps \<noteq> length cs
        \<longrightarrow> divergeIndex (findDivergencePoint (Some ps) (Some cs)) = int (min (length ps) (length cs))
            \<and> reason (findDivergencePoint (Some ps) (Some cs))
                = ''Message count changed ('' @ show_nat (length ps) @ '' '' @ arrow_right
                  @ '' '' @ show_nat (length cs) @ '')''
            \<and> diff (findDivergencePoint (Some ps) (Some cs)) = None)
   \<and> ((\<forall>j. j < length ps \<and> j < length cs \<longrightarrow> hash (ps ! j) = hash (cs ! j))
        \<and> length ps = length cs
        \<longrightarrow> divergeIndex (findDivergencePoint (Some ps) (Some cs)) = - 1
            \<and> reason (findDivergencePoint (Some ps) (Some cs)) = ''No divergence detected'')
   \<and> divergeIndex (findDivergencePoint (Some [fp ''A'', fp ''B'', fp ''C''])
                      (Some [fp ''A'', fp ''B'', fp ''D''])) = 2
   \<and> findDivergencePoint (Some [fp ''A'', fp ''B'']) (Some [fp ''A'', fp ''B'', fp ''C''])
       = \<lparr> divergeIndex = 2,
           reason = ''Message count changed (2 '' @ arrow_right @ '' 3)'',
           prevContent = None, currContent = None, diff = None, role_d = None \<rparr>
   \<and> findDivergencePoint (Some [fp ''A'', fp ''B'']) (Some [fp ''A'', fp ''B''])
       = \<lparr> divergeIndex = - 1, reason = ''No divergence detected'',
           prevContent = None, currContent = None, diff = None, role_d = None \<rparr>"
proof (intro conjI allI impI)
  fix i
  assume "i < length ps \<and> i < length cs \<and> hash (ps ! i) \<noteq> hash (cs ! i)
          \<and> (\<forall>j<i. hash (ps ! j) = hash (cs ! j))"
  then show "divergeIndex (findDivergencePoint (Some ps) (Some cs)) = int i"
    by (intro findDivergencePoint_at_first_difference) simp_all
next
  show "divergeIndex (findDivergencePoint (Some [fp ''A'', fp ''B'', fp ''C''])
                      (Some [fp ''A'', fp ''B'', fp ''D''])) = 2"
    by (simp add: findDivergencePoint_def fp_def Let_def)
next
  show "findDivergencePoint (Some [fp ''A'', fp ''B'']) (Some [fp ''A'', fp ''B'', fp ''C''])
       = \<lparr> divergeIndex = 2,
           reason = ''Message count changed (2 '' @ arrow_right @ '' 3)'',
           prevContent = None, currContent = None, diff = None, role_d = None \<rparr>"
    by (simp add: findDivergencePoint_def fp_def show_nat_def digits_of.simps digit_char_def)
next
  show "findDivergencePoint (Some [fp ''A'', fp ''B'']) (Some [fp ''A'', fp ''B''])
       = \<lparr> divergeIndex = - 1, reason = ''No divergence detected'',
           prevContent = None, currContent = None, diff = None, role_d = None \<rparr>"
    by (simp add: findDivergencePoint_def fp_def)
qed (simp_all add: findDivergencePoint_no_hash_difference)

text \<open>
  The three cases at concrete sequences: a difference at index 1 followed by another at
  index 2, a previous sequence that is one message longer, and two equal sequences.
\<close>

theorem findDivergencePoint_first_difference_witness:
  "divergeIndex (findDivergencePoint (Some [fp ''A'', fp ''X'', fp ''C'', fp ''E''])
                      (Some [fp ''A'', fp ''B'', fp ''D''])) = 1
   \<and> divergeIndex (findDivergencePoint (Some [fp ''A'', fp ''B'', fp ''C'', fp ''E''])
                      (Some [fp ''A'', fp ''B'', fp ''C''])) = 3
   \<and> divergeIndex (findDivergencePoint (Some [fp ''A'', fp ''B'', fp ''C''])
                      (Some [fp ''A'', fp ''B'', fp ''C''])) = - 1"
proof (intro conjI)
  show "divergeIndex (findDivergencePoint (Some [fp ''A'', fp ''X'', fp ''C'', fp ''E''])
                      (Some [fp ''A'', fp ''B'', fp ''D''])) = 1"
    using findDivergencePoint_first_difference
            [of "[fp ''A'', fp ''X'', fp ''C'', fp ''E'']" "[fp ''A'', fp ''B'', fp ''D'']",
             THEN conjunct1, rule_format, of 1]
    by (simp add: fp_def)
  have "\<forall>j. j < length [fp ''A'', fp ''B'', fp ''C'', fp ''E''] \<and> j < length [fp ''A'', fp ''B'', fp ''C'']
          \<longrightarrow> hash ([fp ''A'', fp ''B'', fp ''C'', fp ''E''] ! j) = hash ([fp ''A'', fp ''B'', fp ''C''] ! j)"
    by (simp add: nth_Cons split: nat.splits)
  then show "divergeIndex (findDivergencePoint (Some [fp ''A'', fp ''B'', fp ''C'', fp ''E''])
                      (Some [fp ''A'', fp ''B'', fp ''C''])) = 3"
    using findDivergencePoint_first_difference
            [of "[fp ''A'', fp ''B'', fp ''C'', fp ''E'']" "[fp ''A'', fp ''B'', fp ''C'']",
             THEN conjunct2, THEN conjunct1]
    by simp
  show "divergeIndex (findDivergencePoint (Some [fp ''A'', fp ''B'', fp ''C''])
                      (Some [fp ''A'', fp ''B'', fp ''C''])) = - 1"
    using findDivergencePoint_first_difference
            [of "[fp ''A'', fp ''B'', fp ''C'']" "[fp ''A'', fp ''B'', fp ''C'']",
             THEN conjunct2, THEN conjunct2, THEN conjunct1]
    by simp
qed

section \<open>Properties of the Cost Model\<close>




section \<open>Properties of the lorebook-order analysis\<close>








section \<open>Properties of the location analysis\<close>

lemma example_patterns_detected:
  "detectContentPatterns ''[Lore: A] depth: 2'' = example_patterns [''A''] True"
  by code_simp

text \<open>
  C5, amended. For every divergence index and every message count, the location is
  \<open>early\<close> iff the ratio of the divergence index to the message count is below 0.2 or
  the index is below 3, otherwise \<open>middle\<close> iff the ratio is below 0.8, otherwise
  \<open>late\<close>. With a message count of 0 the quotient is not a number or infinite, and it
  is below a bound only for a negative index: the location is then \<open>early\<close> iff the
  index is below 3, and never \<open>middle\<close>. In the early branch a lore issue found by
  \<open>detectLoreOrderingIssues\<close> decides first: a reordering gives the high-severity cause
  \<open>lorebook_ordering\<close>, any other lore issue the medium-severity cause
  \<open>lorebook_keywords\<close>. Only without a lore issue do depth markers give the
  high-severity cause \<open>depth_configuration\<close>, and their absence the medium-severity
  cause \<open>system_prompt_change\<close>. In the middle, lorebook entries on either side give the
  high-severity cause \<open>lorebook_depth_injection\<close>, otherwise the cause is the
  medium-severity \<open>injected_content\<close>; late is the low-severity \<open>chat_history\<close>.
\<close>

theorem analyzeDivergenceLocation_table:
  "(let la = analyzeDivergenceLocation i n pp cp;
        below = (\<lambda>c :: rat. if n = 0 then i < 0 else of_int i / of_nat n < c);
        early = (below (2 / 10) \<or> i < 3);
        middle = (\<not> early \<and> below (8 / 10));
        li = early_lore_issue pp cp;
        lore = (has_lore pp \<or> has_lore cp);
        depth = (has_depth pp \<or> has_depth cp);
        cause = (likelyCause la, location_analysis.severity la)
    in (location la = ''early'' \<longleftrightarrow> early)
     \<and> (location la = ''middle'' \<longleftrightarrow> middle)
     \<and> (location la = ''late'' \<longleftrightarrow> \<not> early \<and> \<not> middle)
     \<and> (n = 0 \<longrightarrow> (location la = ''early'' \<longleftrightarrow> i < 3) \<and> location la \<noteq> ''middle'')
     \<and> (early \<and> map_option lore_issue.type li = Some ''reordering''
          \<longrightarrow> cause = (Some ''lorebook_ordering'', ''high''))
     \<and> (early \<and> li \<noteq> None \<and> map_option lore_issue.type li \<noteq> Some ''reordering''
          \<longrightarrow> cause = (Some ''lorebook_keywords'', ''medium''))
     \<and> (early \<and> li = None \<and> depth \<longrightarrow> cause = (Some ''depth_configuration'', ''high''))
     \<and> (early \<and> li = None \<and> \<not> depth \<longrightarrow> cause = (Some ''system_prompt_change'', ''medium''))
     \<and> (middle \<and> lore \<longrightarrow> cause = (Some ''lorebook_depth_injection'', ''high''))
     \<and> (middle \<and> \<not> lore \<longrightarrow> cause = (Some ''injected_content'', ''medium''))
     \<and> (\<not> early \<and> \<not> middle \<longrightarrow> cause = (Some ''chat_history'', ''low'')))"
proof (cases "early_lore_issue pp cp")
  case None
  then show ?thesis
    by (cases "n = 0") (simp_all add: analyzeDivergenceLocation_def ratio_less_def Let_def)
next
  case (Some x)
  then show ?thesis
    by (cases "n = 0") (simp_all add: analyzeDivergenceLocation_def ratio_less_def Let_def)
qed

text \<open>
  The table at concrete inputs: index 1 of 10 without patterns, index 1 of 10 with the
  lorebook entries \<open>A, B\<close> swapped, index 5 of 10 and index 9 of 10 without patterns,
  and, for a request without messages, the indices 0 and 3 of 0.
\<close>

theorem analyzeDivergenceLocation_table_witness:
  "(location (analyzeDivergenceLocation 1 10 None None),
    likelyCause (analyzeDivergenceLocation 1 10 None None)) = (''early'', Some ''system_prompt_change'')
   \<and> (location (analyzeDivergenceLocation 1 10 (Some (example_patterns [''A'', ''B''] False))
                  (Some (example_patterns [''B'', ''A''] False))),
      likelyCause (analyzeDivergenceLocation 1 10 (Some (example_patterns [''A'', ''B''] False))
                  (Some (example_patterns [''B'', ''A''] False))))
     = (''early'', Some ''lorebook_ordering'')
   \<and> (location (analyzeDivergenceLocation 5 10 None None),
      likelyCause (analyzeDivergenceLocation 5 10 None None)) = (''middle'', Some ''injected_content'')
   \<and> (location (analyzeDivergenceLocation 9 10 None None),
      likelyCause (analyzeDivergenceLocation 9 10 None None)) = (''late'', Some ''chat_history'')
   \<and> location (analyzeDivergenceLocation 0 0 None None) = ''early''
   \<and> (location (analyzeDivergenceLocation 3 0 None None),
      likelyCause (analyzeDivergenceLocation 3 0 None None)) = (''late'', Some ''chat_history'')"
proof -
  have r: "early_lore_issue (Some (example_patterns [''A'', ''B''] False))
             (Some (example_patterns [''B'', ''A''] False)) \<noteq> None
           \<and> map_option lore_issue.type
               (early_lore_issue (Some (example_patterns [''A'', ''B''] False))
                  (Some (example_patterns [''B'', ''A''] False))) = Some ''reordering''"
    by (simp add: early_lore_issue_def has_lore_def names_or_empty_def example_patterns_def
          detectLoreOrderingIssues_def)
  have n: "early_lore_issue None None = None" "\<not> has_lore None" "\<not> has_depth None"
    by (simp_all add: early_lore_issue_def has_lore_def has_depth_def)
  show ?thesis
    using analyzeDivergenceLocation_table [where i = 1 and n = 10 and pp = None and cp = None]
      analyzeDivergenceLocation_table
        [where i = 1 and n = 10 and pp = "Some (example_patterns [''A'', ''B''] False)"
           and cp = "Some (example_patterns [''B'', ''A''] False)"]
      analyzeDivergenceLocation_table [where i = 5 and n = 10 and pp = None and cp = None]
      analyzeDivergenceLocation_table [where i = 9 and n = 10 and pp = None and cp = None]
      analyzeDivergenceLocation_table [where i = 0 and n = 0 and pp = None and cp = None]
      analyzeDivergenceLocation_table [where i = 3 and n = 0 and pp = None and cp = None] r
    by (auto simp: Let_def n)
qed

text \<open>
  C5 as stated fails. At index 0 of 10, with depth markers on both sides and the
  lorebook entry \<open>A\<close> replaced by \<open>B\<close>, the location is early and depth markers are
  present, yet the cause is the medium-severity \<open>lorebook_keywords\<close>, neither the
  high-severity depth configuration nor the system-prompt change.
\<close>

theorem analyzeDivergenceLocation_counterexample:
  "has_depth (Some (example_patterns [''A''] True))
   \<and> map_option lore_issue.type
        (early_lore_issue (Some (example_patterns [''A''] True))
           (Some (example_patterns [''B''] True))) \<noteq> Some ''reordering''
   \<and> location (analyzeDivergenceLocation 0 10 (Some (example_patterns [''A''] True))
                 (Some (example_patterns [''B''] True))) = ''early''
   \<and> likelyCause (analyzeDivergenceLocation 0 10 (Some (example_patterns [''A''] True))
                    (Some (example_patterns [''B''] True))) = Some ''lorebook_keywords''
   \<and> location_analysis.severity
        (analyzeDivergenceLocation 0 10 (Some (example_patterns [''A''] True))
           (Some (example_patterns [''B''] True))) = ''medium''"
  by (simp add: analyzeDivergenceLocation_def early_lore_issue_def has_lore_def has_depth_def
        names_or_empty_def example_patterns_def detectLoreOrderingIssues_def ratio_less_def)

section \<open>Basic facts about the Session Aggregator\<close>

text \<open>What one call, and one event, does to each part of the state.\<close>

lemma isClaude_example: "isClaude (model (claude_usage r w))"
  unfolding claude_usage_def isClaude_def by code_simp

lemma claude_usage_tokens [simp]:
  "cache_read_input_tokens (claude_usage r w) = r"
  "cache_creation_input_tokens (claude_usage r w) = w"
  by (simp_all add: claude_usage_def)

lemma hashMessages_None [simp]: "hashMessages None = Inr []"
  by (simp add: hashMessages_def)

lemma hashMessages_empty [simp]: "hashMessages (Some []) = Inr []"
  by (simp add: hashMessages_def)

lemma processUsageData_skip:
  "usage' = None \<or> (\<exists>u. usage' = Some u \<and> \<not> isClaude (model u))
     \<Longrightarrow> processUsageData st now usage' = (Returned, st)"
  by (auto simp: processUsageData_def)

lemma update_counters_history [simp]:
  "requestHistory (update_counters u ss) = requestHistory ss"
  by (simp add: update_counters_def Let_def)

lemma processUsageData_threw:
  assumes "isClaude (model u)"
    and "hashMessages (current_request.messages (currentRequest st)) = Inl e"
  shows "processUsageData st now (Some u)
           = (Threw e, st\<lparr> detectedClaudeUsage := True,
                             currentRequest := (currentRequest st)\<lparr> usage := Some u \<rparr>,
                             sessionStats := update_counters u (sessionStats st) \<rparr>)"
  using assms by (simp add: processUsageData_def Let_def)

lemma processUsageData_returned:
  assumes "isClaude (model u)"
    and "hashMessages (current_request.messages (currentRequest st)) = Inr hs"
  shows "processUsageData st now (Some u)
           = (Returned,
              st\<lparr> detectedClaudeUsage := True,
                   currentRequest := (currentRequest st)\<lparr> usage := Some u \<rparr>,
                   sessionStats :=
                     (update_counters u (sessionStats st))
                       \<lparr> requestHistory :=
                           trim_history
                             (requestHistory (sessionStats st)
                              @ [new_entry (previousRequest st)
                                   ((currentRequest st)\<lparr> usage := Some u \<rparr>) now u hs]) \<rparr>,
                   previousRequest :=
                     update_previous ((currentRequest st)\<lparr> usage := Some u \<rparr>) now hs
                       (previousRequest st),
                   warnings :=
                     warnings st
                     @ waste_warning (settings st)
                         (consecutiveMisses (update_counters u (sessionStats st))) \<rparr>)"
  using assms by (simp add: processUsageData_def Let_def)

lemma update_previous_None [simp]:
  "current_request.messages cr = None \<Longrightarrow> update_previous cr now hs prev = prev"
  by (simp add: update_previous_def)

lemma update_previous_timestamp:
  "current_request.messages cr = Some ms
     \<Longrightarrow> previous_request.timestamp (update_previous cr now hs prev) = Some now"
  by (simp add: update_previous_def)

lemma processUsageData_previous:
  "previousRequest (snd (processUsageData st now usage'))
     = (case usage' of
          None \<Rightarrow> previousRequest st
        | Some u \<Rightarrow>
            if isClaude (model u) then
              (case hashMessages (current_request.messages (currentRequest st)) of
                 Inl e \<Rightarrow> previousRequest st
               | Inr hs \<Rightarrow> update_previous (currentRequest st) now hs (previousRequest st))
            else previousRequest st)"
  by (simp add: processUsageData_def Let_def update_previous_def split: option.splits sum.splits)

lemma processUsageData_settings [simp]:
  "settings (snd (processUsageData st now usage')) = settings st"
  by (simp add: processUsageData_def Let_def split: option.splits sum.splits)

lemma processUsageData_messages [simp]:
  "current_request.messages (currentRequest (snd (processUsageData st now usage')))
     = current_request.messages (currentRequest st)"
  by (simp add: processUsageData_def Let_def split: option.splits sum.splits)

lemma pushed_by_cases: "pushed_by st ev = [] \<or> (\<exists>e. pushed_by st ev = [e])"
proof (cases ev)
  case (Usage now usage')
  show ?thesis
  proof (cases usage')
    case None
    with Usage show ?thesis by simp
  next
    case (Some u)
    with Usage show ?thesis
      by (cases "hashMessages (current_request.messages (currentRequest st))") simp_all
  qed
qed simp_all

lemma processUsageData_history:
  "requestHistory (sessionStats (snd (processUsageData st now usage')))
     = (if pushed_by st (Usage now usage') = [] then requestHistory (sessionStats st)
        else trim_history (requestHistory (sessionStats st) @ pushed_by st (Usage now usage')))"
proof (cases usage')
  case None
  then show ?thesis by (simp add: processUsageData_def)
next
  case (Some u)
  show ?thesis
  proof (cases "isClaude (model u)")
    case False
    with Some show ?thesis by (simp add: processUsageData_def)
  next
    case True
    with Some show ?thesis
      by (cases "hashMessages (current_request.messages (currentRequest st))")
        (simp_all add: processUsageData_threw processUsageData_returned)
  qed
qed

lemma processUsageData_warnings:
  "warnings (snd (processUsageData st now (Some u)))
     = warnings st
       @ (if isClaude (model u) \<and> fst (processUsageData st now (Some u)) = Returned
          then waste_warning (settings st)
                 (consecutiveMisses (sessionStats (snd (processUsageData st now (Some u)))))
          else [])"
proof (cases "isClaude (model u)")
  case False
  then show ?thesis by (simp add: processUsageData_def)
next
  case True
  then show ?thesis
    by (cases "hashMessages (current_request.messages (currentRequest st))")
      (simp_all add: processUsageData_threw processUsageData_returned)
qed

lemma run_Nil [simp]: "run st [] = st"
  by (simp add: run_def)

lemma run_Cons [simp]: "run st (ev # evs) = run (step st ev) evs"
  by (simp add: run_def)

lemma run_snoc: "run st (evs @ [ev]) = step (run st evs) ev"
  by (simp add: run_def)

lemma step_history:
  "requestHistory (sessionStats (step st ev))
     = (if pushed_by st ev = [] then requestHistory (sessionStats st)
        else trim_history (requestHistory (sessionStats st) @ pushed_by st ev))"
  by (cases ev) (simp_all add: processUsageData_history)

section \<open>Properties of the Session Aggregator\<close>

subsection \<open>Hit and miss classification\<close>

lemma processUsageData_counters:
  assumes "isClaude (model u)"
  shows "cacheHits (sessionStats (snd (processUsageData st now (Some u))))
           = cacheHits (update_counters u (sessionStats st))"
    and "cacheMisses (sessionStats (snd (processUsageData st now (Some u))))
           = cacheMisses (update_counters u (sessionStats st))"
    and "consecutiveMisses (sessionStats (snd (processUsageData st now (Some u))))
           = consecutiveMisses (update_counters u (sessionStats st))"
    and "totalRequests (sessionStats (snd (processUsageData st now (Some u))))
           = totalRequests (update_counters u (sessionStats st))"
proof -
  show "cacheHits (sessionStats (snd (processUsageData st now (Some u))))
           = cacheHits (update_counters u (sessionStats st))"
    using assms
    by (cases "hashMessages (current_request.messages (currentRequest st))")
      (simp_all add: processUsageData_threw processUsageData_returned)
  show "cacheMisses (sessionStats (snd (processUsageData st now (Some u))))
           = cacheMisses (update_counters u (sessionStats st))"
    using assms
    by (cases "hashMessages (current_request.messages (currentRequest st))")
      (simp_all add: processUsageData_threw processUsageData_returned)
  show "consecutiveMisses (sessionStats (snd (processUsageData st now (Some u))))
           = consecutiveMisses (update_counters u (sessionStats st))"
    using assms
    by (cases "hashMessages (current_request.messages (currentRequest st))")
      (simp_all add: processUsageData_threw processUsageData_returned)
  show "totalRequests (sessionStats (snd (processUsageData st now (Some u))))
           = totalRequests (update_counters u (sessionStats st))"
    using assms
    by (cases "hashMessages (current_request.messages (currentRequest st))")
      (simp_all add: processUsageData_threw processUsageData_returned)
qed

lemma pushed_by_flags:
  "list_all (\<lambda>e. cacheHit e = (0 < cache_read_input_tokens u)
                   \<and> cacheWrite e = (0 < cache_creation_input_tokens u))
     (pushed_by st (Usage now (Some u)))"
  by (cases "hashMessages (current_request.messages (currentRequest st))")
    (simp_all add: new_entry_def hadCacheRead_def hadCacheWrite_def)

text \<open>
  C2, amended. In the revisions of \<open>processUsageData\<close> that accept a record by its
  model string (part_001, and with the same counter update part_000 and the second and
  third revision in index.js), for a usage record with a Claude model string: with
  cache-read tokens the record is a hit, \<open>cacheHits\<close> grows by one and \<open>consecutiveMisses\<close> becomes 0; with no
  cache-read tokens and some cache-creation tokens it is a write-miss, \<open>cacheMisses\<close>
  grows by one and \<open>consecutiveMisses\<close> grows by exactly one; with neither, none of the
  three counters changes. The entry pushed onto the history carries the same
  classification in its flags \<open>cacheHit\<close> and \<open>cacheWrite\<close>.
\<close>

theorem processUsageData_classification:
  assumes "isClaude (model u)"
  shows
    "(0 < cache_read_input_tokens u \<longrightarrow>
        cacheHits (sessionStats (snd (processUsageData st now (Some u))))
          = cacheHits (sessionStats st) + 1
        \<and> consecutiveMisses (sessionStats (snd (processUsageData st now (Some u)))) = 0
        \<and> cacheMisses (sessionStats (snd (processUsageData st now (Some u))))
          = cacheMisses (sessionStats st))
     \<and> (cache_read_input_tokens u = 0 \<and> 0 < cache_creation_input_tokens u \<longrightarrow>
        cacheMisses (sessionStats (snd (processUsageData st now (Some u))))
          = cacheMisses (sessionStats st) + 1
        \<and> consecutiveMisses (sessionStats (snd (processUsageData st now (Some u))))
          = consecutiveMisses (sessionStats st) + 1
        \<and> cacheHits (sessionStats (snd (processUsageData st now (Some u))))
          = cacheHits (sessionStats st))
     \<and> (cache_read_input_tokens u = 0 \<and> cache_creation_input_tokens u = 0 \<longrightarrow>
        cacheHits (sessionStats (snd (processUsageData st now (Some u))))
          = cacheHits (sessionStats st)
        \<and> cacheMisses (sessionStats (snd (processUsageData st now (Some u))))
          = cacheMisses (sessionStats st)
        \<and> consecutiveMisses (sessionStats (snd (processUsageData st now (Some u))))
          = consecutiveMisses (sessionStats st))
     \<and> list_all (\<lambda>e. cacheHit e = (0 < cache_read_input_tokens u)
                        \<and> cacheWrite e = (0 < cache_creation_input_tokens u))
          (pushed_by st (Usage now (Some u)))"
  using assms pushed_by_flags [of u st now]
  by (simp add: processUsageData_counters update_counters_def hadCacheRead_def
        hadCacheWrite_def Let_def)

text \<open>
  The three cases from the initial state: a hit with 500 cache-read tokens, a write-miss
  with 800 cache-creation tokens, and a record without cache activity.
\<close>

theorem processUsageData_classification_witness:
  "cacheHits (sessionStats (snd (processUsageData (initial_state None) 1000
                                   (Some (claude_usage 500 0))))) = 1
   \<and> consecutiveMisses (sessionStats (snd (processUsageData (initial_state None) 1000
                                   (Some (claude_usage 500 0))))) = 0
   \<and> cacheMisses (sessionStats (snd (processUsageData (initial_state None) 1000
                                   (Some (claude_usage 0 800))))) = 1
   \<and> consecutiveMisses (sessionStats (snd (processUsageData (initial_state None) 1000
                                   (Some (claude_usage 0 800))))) = 1
   \<and> consecutiveMisses (sessionStats (snd (processUsageData (initial_state None) 1000
                                   (Some (claude_usage 0 0))))) = 0
   \<and> map cacheHit (pushed_by (initial_state None) (Usage 1000 (Some (claude_usage 500 0))))
       = [True]"
proof -
  have u: "cache_read_input_tokens (claude_usage r w) = r"
          "cache_creation_input_tokens (claude_usage r w) = w" for r w
    by (simp_all add: claude_usage_def)
  have i: "cacheHits (sessionStats (initial_state None)) = 0"
          "cacheMisses (sessionStats (initial_state None)) = 0"
          "consecutiveMisses (sessionStats (initial_state None)) = 0"
    by (simp_all add: initial_state_def)
  show ?thesis
    using processUsageData_classification [OF isClaude_example, of 500 0 "initial_state None" 1000]
      processUsageData_classification [OF isClaude_example, of 0 800 "initial_state None" 1000]
      processUsageData_classification [OF isClaude_example, of 0 0 "initial_state None" 1000]
    by (simp add: u i isClaude_example hashMessages_def initial_state_def)
qed

text \<open>
  The first revision in index.js agrees with this on hits and write-misses. On a record
  without cache activity it counts one more consecutive miss.
\<close>

lemma update_counters_v1_difference:
  "(hadCacheRead u \<or> hadCacheWrite u \<longrightarrow> update_counters_v1 u ss = update_counters u ss)
   \<and> (\<not> hadCacheRead u \<and> \<not> hadCacheWrite u \<longrightarrow>
        update_counters_v1 u ss
          = (update_counters u ss)\<lparr> consecutiveMisses := consecutiveMisses ss + 1 \<rparr>)"
  by (simp add: update_counters_v1_def update_counters_def Let_def)

text \<open>
  C2 as stated fails. The claim also names the first revision of \<open>processUsageData\<close>
  (index.js lines 118-131). There a record with a Claude model string and neither
  cache-read nor cache-creation tokens counts as one more consecutive miss: from the
  initial counters \<open>consecutiveMisses\<close> is 1 afterwards.
\<close>

theorem update_counters_v1_counterexample:
  "isClaude (model (claude_usage 0 0))
   \<and> cache_read_input_tokens (claude_usage 0 0) = 0
   \<and> cache_creation_input_tokens (claude_usage 0 0) = 0
   \<and> consecutiveMisses (sessionStats (initial_state None)) = 0
   \<and> consecutiveMisses
        (update_counters_v1 (claude_usage 0 0) (sessionStats (initial_state None))) = 1"
  by (simp add: isClaude_example update_counters_v1_def hadCacheRead_def hadCacheWrite_def
        initial_state_def Let_def)

subsection \<open>The previous-request snapshot\<close>

lemma step_previous_kept:
  "previousRequest st \<noteq> no_previous_request \<Longrightarrow> previousRequest (step st ev) \<noteq> no_previous_request"
proof (cases ev)
  case (Usage now usage')
  assume a: "previousRequest st \<noteq> no_previous_request"
  have "update_previous cr now hs (previousRequest st) \<noteq> no_previous_request" for cr hs
  proof (cases "current_request.messages cr")
    case None
    with a show ?thesis by simp
  next
    case (Some ms)
    then have "previous_request.timestamp (update_previous cr now hs (previousRequest st)) = Some now"
      by (rule update_previous_timestamp)
    then show ?thesis by (auto simp: no_previous_request_def)
  qed
  with a Usage show ?thesis
    by (simp add: processUsageData_previous split: option.splits sum.splits)
qed simp_all

lemma run_previous_kept:
  "previousRequest st \<noteq> no_previous_request \<Longrightarrow> previousRequest (run st evs) \<noteq> no_previous_request"
  by (induction evs arbitrary: st) (simp_all add: step_previous_kept)

text \<open>
  C10. \<open>processUsageData\<close> replaces the previous-request snapshot only when the current
  request captured messages: a call made while \<open>currentRequest.messages\<close> is \<open>null\<close>
  leaves the whole snapshot as it was, a call that changes the snapshot had messages,
  and a snapshot that is not all-null never becomes all-null again, whatever events
  follow.
\<close>

theorem previousRequest_frame:
  "(current_request.messages (currentRequest st) = None \<longrightarrow>
      previousRequest (snd (processUsageData st now usage')) = previousRequest st)
   \<and> (previousRequest (snd (processUsageData st now usage')) \<noteq> previousRequest st \<longrightarrow>
        (\<exists>ms. current_request.messages (currentRequest st) = Some ms))
   \<and> (previousRequest st \<noteq> no_previous_request \<longrightarrow>
        previousRequest (snd (processUsageData st now usage')) \<noteq> no_previous_request
        \<and> previousRequest (run st evs) \<noteq> no_previous_request)"
proof (intro conjI impI)
  assume "current_request.messages (currentRequest st) = None"
  then show "previousRequest (snd (processUsageData st now usage')) = previousRequest st"
    by (simp add: processUsageData_previous split: option.splits sum.splits)
next
  assume "previousRequest (snd (processUsageData st now usage')) \<noteq> previousRequest st"
  then show "\<exists>ms. current_request.messages (currentRequest st) = Some ms"
    by (cases "current_request.messages (currentRequest st)")
      (simp_all add: processUsageData_previous split: option.splits sum.splits)
next
  assume a: "previousRequest st \<noteq> no_previous_request"
  from step_previous_kept [OF a, of "Usage now usage'"]
  show "previousRequest (snd (processUsageData st now usage')) \<noteq> no_previous_request" by simp
  from a show "previousRequest (run st evs) \<noteq> no_previous_request" by (rule run_previous_kept)
qed

text \<open>
  A record processed before any request body was captured leaves the all-null snapshot;
  a request with an (empty) messages array sets the snapshot at time 2000; a later
  record, processed for a request without messages, leaves that snapshot as it is.
\<close>

theorem previousRequest_frame_witness:
  "previousRequest (snd (processUsageData (initial_state None) 1000 (Some (claude_usage 0 800))))
     = no_previous_request
   \<and> previousRequest
        (run (initial_state None) [Begin 1000 (Some []), Usage 2000 (Some (claude_usage 0 800))])
       = \<lparr> previous_request.messages = Some [], previous_request.messageHashes = Some [],
           systemPrompt = None, systemPromptHash = None, previous_request.timestamp = Some 2000 \<rparr>
   \<and> previousRequest
        (run (initial_state None)
           [Begin 1000 (Some []), Usage 2000 (Some (claude_usage 0 800)), Begin 3000 None,
            Usage 4000 (Some (claude_usage 0 900))])
       = \<lparr> previous_request.messages = Some [], previous_request.messageHashes = Some [],
           systemPrompt = None, systemPromptHash = None, previous_request.timestamp = Some 2000 \<rparr>
   \<and> previousRequest
        (run (initial_state None)
           [Begin 1000 (Some []), Usage 2000 (Some (claude_usage 0 800)), Begin 3000 None,
            Usage 4000 (Some (claude_usage 0 900))])
       \<noteq> no_previous_request"
proof -
  let ?st2 = "run (initial_state None) [Begin 1000 (Some []), Usage 2000 (Some (claude_usage 0 800))]"
  let ?st3 = "step ?st2 (Begin 3000 None)"
  have s2: "previousRequest ?st2
       = \<lparr> previous_request.messages = Some [], previous_request.messageHashes = Some [],
           systemPrompt = None, systemPromptHash = None, previous_request.timestamp = Some 2000 \<rparr>"
    by (simp add: processUsageData_previous isClaude_example update_previous_def)
  have ne: "previousRequest ?st2 \<noteq> no_previous_request"
    by (simp add: processUsageData_previous isClaude_example update_previous_def
          no_previous_request_def)
  have m3: "current_request.messages (currentRequest ?st3) = None" by simp
  have p3: "previousRequest ?st3 = previousRequest ?st2" by simp
  have a: "previousRequest (snd (processUsageData (initial_state None) 1000 (Some (claude_usage 0 800))))
     = no_previous_request"
    using previousRequest_frame [of "initial_state None" 1000 "Some (claude_usage 0 800)"]
    by (simp add: initial_state_def)
  have b: "previousRequest (snd (processUsageData ?st3 4000 (Some (claude_usage 0 900))))
     = previousRequest ?st3"
    using previousRequest_frame [of ?st3 4000 "Some (claude_usage 0 900)"] m3 by blast
  have c: "previousRequest (run ?st2 [Begin 3000 None, Usage 4000 (Some (claude_usage 0 900))])
     \<noteq> no_previous_request"
    using previousRequest_frame [of ?st2 0 None "[Begin 3000 None, Usage 4000 (Some (claude_usage 0 900))]"] ne
    by blast
  have r: "run (initial_state None)
           [Begin 1000 (Some []), Usage 2000 (Some (claude_usage 0 800)), Begin 3000 None,
            Usage 4000 (Some (claude_usage 0 900))]
         = snd (processUsageData ?st3 4000 (Some (claude_usage 0 900)))"
    by simp
  have r': "run (initial_state None)
           [Begin 1000 (Some []), Usage 2000 (Some (claude_usage 0 800)), Begin 3000 None,
            Usage 4000 (Some (claude_usage 0 900))]
         = run ?st2 [Begin 3000 None, Usage 4000 (Some (claude_usage 0 900))]"
    by simp
  have d: "previousRequest (run (initial_state None)
           [Begin 1000 (Some []), Usage 2000 (Some (claude_usage 0 800)), Begin 3000 None,
            Usage 4000 (Some (claude_usage 0 900))])
       = \<lparr> previous_request.messages = Some [], previous_request.messageHashes = Some [],
           systemPrompt = None, systemPromptHash = None, previous_request.timestamp = Some 2000 \<rparr>"
    unfolding r by (simp only: b p3 s2)
  have e: "previousRequest (run (initial_state None)
           [Begin 1000 (Some []), Usage 2000 (Some (claude_usage 0 800)), Begin 3000 None,
            Usage 4000 (Some (claude_usage 0 900))]) \<noteq> no_previous_request"
    unfolding r' by (rule c)
  from a s2 d e show ?thesis by (intro conjI)
qed

subsection \<open>The request history\<close>

text \<open>The history is the last 100 of all the entries pushed so far.\<close>

lemma trim_history_last_100:
  assumes "h = drop (length p - 100) p"
  shows "trim_history (h @ [e]) = drop (length (p @ [e]) - 100) (p @ [e])"
proof (cases "100 \<le> length p")
  case True
  then have len: "length h = 100" using assms by simp
  then have "h \<noteq> []" by auto
  with len have "trim_history (h @ [e]) = tl h @ [e]" by (simp add: trim_history_def)
  also have "tl h = drop (Suc (length p - 100)) p" using assms by (simp add: drop_Suc tl_drop)
  also have "drop (Suc (length p - 100)) p @ [e] = drop (Suc (length p - 100)) (p @ [e])"
    using True by simp
  also have "Suc (length p - 100) = length (p @ [e]) - 100" using True by simp
  finally show ?thesis .
next
  case False
  then have "h = p" using assms by simp
  with False show ?thesis by (simp add: trim_history_def)
qed

lemma run_history:
  assumes "requestHistory (sessionStats st) = drop (length p - 100) p"
  shows "requestHistory (sessionStats (run st evs))
           = drop (length (p @ pushed st evs) - 100) (p @ pushed st evs)"
  using assms
proof (induction evs arbitrary: st p)
  case Nil
  then show ?case by simp
next
  case (Cons ev evs)
  from pushed_by_cases [of st ev] show ?case
  proof
    assume e: "pushed_by st ev = []"
    then have "requestHistory (sessionStats (step st ev)) = drop (length p - 100) p"
      using Cons.prems by (simp add: step_history)
    from Cons.IH [OF this] e show ?thesis by simp
  next
    assume "\<exists>e. pushed_by st ev = [e]"
    then obtain e where e: "pushed_by st ev = [e]" by blast
    then have "requestHistory (sessionStats (step st ev))
                 = drop (length (p @ [e]) - 100) (p @ [e])"
      using trim_history_last_100 [OF Cons.prems, of e] by (simp add: step_history)
    from Cons.IH [OF this] e show ?thesis by simp
  qed
qed

lemma pushed_replicate:
  assumes "current_request.messages (currentRequest st) = None" "isClaude (model u)"
  shows "length (pushed st (replicate k (Usage now (Some u)))) = k"
  using assms
proof (induction k arbitrary: st)
  case 0
  then show ?case by simp
next
  case (Suc k)
  have "current_request.messages (currentRequest (step st (Usage now (Some u)))) = None"
    using Suc.prems by simp
  from Suc.IH [OF this Suc.prems(2)] Suc.prems show ?case by simp
qed

lemma pushed_by_returned:
  "length (pushed_by st (Usage now (Some u)))
     = (if isClaude (model u) \<and> fst (processUsageData st now (Some u)) = Returned then 1 else 0)"
proof (cases "isClaude (model u)")
  case False
  then show ?thesis by simp
next
  case True
  then show ?thesis
    by (cases "hashMessages (current_request.messages (currentRequest st))")
      (simp_all add: processUsageData_threw processUsageData_returned)
qed

text \<open>
  C9, amended. Whatever events the module has processed since it was loaded, the request
  history holds at most 100 entries, and it holds the last 100 of the entries pushed so
  far in the order they were pushed: the oldest entries are the ones that were dropped.
  A single call keeps a history of at most 100 entries at most 100 long. The calls that
  push an entry, one each, are those that accept the record and return normally. After
  101 entries were pushed the history has exactly 100 entries, all but the first one.
\<close>

theorem requestHistory_bounded_fifo:
  "length (requestHistory (sessionStats (run (initial_state cfg) evs))) \<le> 100
   \<and> requestHistory (sessionStats (run (initial_state cfg) evs))
       = drop (length (pushed (initial_state cfg) evs) - 100) (pushed (initial_state cfg) evs)
   \<and> (length (requestHistory (sessionStats st)) \<le> 100 \<longrightarrow>
        length (requestHistory (sessionStats (snd (processUsageData st now usage')))) \<le> 100)
   \<and> length (pushed_by st (Usage now (Some u)))
       = (if isClaude (model u) \<and> fst (processUsageData st now (Some u)) = Returned
          then 1 else 0)
   \<and> (length (pushed (initial_state cfg) evs) = 101 \<longrightarrow>
        length (requestHistory (sessionStats (run (initial_state cfg) evs))) = 100
        \<and> requestHistory (sessionStats (run (initial_state cfg) evs))
            = tl (pushed (initial_state cfg) evs))"
proof -
  have "requestHistory (sessionStats (initial_state cfg)) = drop (length ([] :: history_entry list) - 100) []"
    by (simp add: initial_state_def)
  from run_history [OF this, of evs]
  have h: "requestHistory (sessionStats (run (initial_state cfg) evs))
       = drop (length (pushed (initial_state cfg) evs) - 100) (pushed (initial_state cfg) evs)"
    by simp
  have one: "length (requestHistory (sessionStats (snd (processUsageData st now usage')))) \<le> 100"
    if "length (requestHistory (sessionStats st)) \<le> 100"
    using that pushed_by_cases [of st "Usage now usage'"]
    by (auto simp: processUsageData_history trim_history_def)
  have t: "drop 1 xs = tl xs" for xs :: "history_entry list" by (simp add: drop_Suc)
  have b: "length (requestHistory (sessionStats (run (initial_state cfg) evs))) \<le> 100"
    by (simp add: h)
  have l: "length (requestHistory (sessionStats (run (initial_state cfg) evs))) = 100
        \<and> requestHistory (sessionStats (run (initial_state cfg) evs))
            = tl (pushed (initial_state cfg) evs)"
    if "length (pushed (initial_state cfg) evs) = 101"
    using that h t [of "pushed (initial_state cfg) evs"] by simp
  from b h one l pushed_by_returned [of st now u] show ?thesis by blast
qed

text \<open>
  101 accepted records from the initial state, each call returning normally: the
  history has 100 entries, the entries pushed second to last.
\<close>

theorem requestHistory_bounded_fifo_witness:
  "length (pushed (initial_state None) (replicate 101 (Usage 1000 (Some (claude_usage 500 0))))) = 101
   \<and> length (requestHistory (sessionStats
        (run (initial_state None) (replicate 101 (Usage 1000 (Some (claude_usage 500 0))))))) = 100
   \<and> requestHistory (sessionStats
        (run (initial_state None) (replicate 101 (Usage 1000 (Some (claude_usage 500 0))))))
      = tl (pushed (initial_state None) (replicate 101 (Usage 1000 (Some (claude_usage 500 0)))))
   \<and> length (requestHistory (sessionStats
        (snd (processUsageData (initial_state None) 1000 (Some (claude_usage 500 0)))))) \<le> 100
   \<and> length (pushed_by (initial_state None) (Usage 1000 (Some (claude_usage 500 0)))) = 1"
proof -
  have m: "current_request.messages (currentRequest (initial_state None)) = None"
    by (simp add: initial_state_def)
  have l: "length (pushed (initial_state None) (replicate 101 (Usage 1000 (Some (claude_usage 500 0))))) = 101"
    using pushed_replicate [OF m isClaude_example] .
  have i: "length (requestHistory (sessionStats (initial_state None))) \<le> 100"
    by (simp add: initial_state_def)
  have r: "isClaude (model (claude_usage 500 0))
           \<and> fst (processUsageData (initial_state None) 1000 (Some (claude_usage 500 0))) = Returned"
    using m by (simp add: isClaude_example processUsageData_returned [OF isClaude_example])
  from l i r
    requestHistory_bounded_fifo
      [where cfg = None and evs = "replicate 101 (Usage 1000 (Some (claude_usage 500 0)))"
         and st = "initial_state None" and now = 1000 and usage' = "Some (claude_usage 500 0)"
         and u = "claude_usage 500 0"]
  show ?thesis by (simp add: drop_Suc)
qed

lemma hashMessages_without_content:
  "hashMessages (Some [message_without_content]) = Inl TypeError"
  by (simp add: hashMessages_def hashMessage_def message_without_content_def)

lemma update_counters_totalRequests:
  "totalRequests (update_counters u ss) = totalRequests ss + 1"
  by (simp add: update_counters_def Let_def)

lemma run_replicate_totalRequests:
  "isClaude (model u)
     \<Longrightarrow> totalRequests (sessionStats (run st (replicate k (Usage now (Some u)))))
         = totalRequests (sessionStats st) + k"
  by (induction k arbitrary: st)
    (simp_all add: processUsageData_counters update_counters_totalRequests)

text \<open>
  C9 as stated fails. In the session \<open>throwing_session\<close> 101 records are accepted and
  counted. The call for the second one throws in \<open>hashMessages\<close> before the history is
  touched, so only 100 entries are ever pushed: the history has 100 entries, nothing
  was evicted, and the entry of the first request is still at its head.
\<close>

theorem requestHistory_counterexample:
  "totalRequests (sessionStats (run (initial_state None) throwing_session)) = 101
   \<and> length (requestHistory (sessionStats (run (initial_state None) throwing_session))) = 100
   \<and> requestHistory (sessionStats (run (initial_state None) throwing_session))
       = pushed (initial_state None) throwing_session
   \<and> hd (requestHistory (sessionStats (run (initial_state None) throwing_session)))
       = new_entry no_previous_request
           \<lparr> active = True, startTime = Some 900, usage = Some (claude_usage 500 0),
             messages = None \<rparr> 1000 (claude_usage 500 0) []"
proof -
  define rest where "rest = replicate 99 (Usage 5000 (Some (claude_usage 500 0)))"
  define st5 where
    "st5 = run (initial_state None)
             [Begin 900 None, Usage 1000 (Some (claude_usage 500 0)),
              Begin 2000 (Some [message_without_content]), Usage 3000 (Some (claude_usage 500 0)),
              Begin 4000 None]"
  have s: "throwing_session
             = Begin 900 None # Usage 1000 (Some (claude_usage 500 0))
               # Begin 2000 (Some [message_without_content])
               # Usage 3000 (Some (claude_usage 500 0)) # Begin 4000 None # rest"
    by (simp only: throwing_session_def rest_def)
  have m5: "current_request.messages (currentRequest st5) = None"
    by (simp add: st5_def)
  have t5: "totalRequests (sessionStats st5) = 2"
    by (simp add: st5_def processUsageData_counters isClaude_example
          update_counters_totalRequests initial_state_def)
  have r: "run (initial_state None) throwing_session = run st5 rest"
    by (simp only: s st5_def run_Cons run_Nil)
  have p: "pushed (initial_state None) throwing_session
             = new_entry no_previous_request
                 \<lparr> active = True, startTime = Some 900, usage = Some (claude_usage 500 0),
                   messages = None \<rparr> 1000 (claude_usage 500 0) []
               # pushed st5 rest"
    by (simp add: s st5_def isClaude_example hashMessages_without_content initial_state_def)
  have l: "length (pushed st5 rest) = 99"
    unfolding rest_def by (rule pushed_replicate [OF m5 isClaude_example])
  have "requestHistory (sessionStats (initial_state None))
          = drop (length ([] :: history_entry list) - 100) []"
    by (simp add: initial_state_def)
  from run_history [OF this, of throwing_session]
  have h: "requestHistory (sessionStats (run (initial_state None) throwing_session))
             = pushed (initial_state None) throwing_session"
    by (simp add: p l)
  have t: "totalRequests (sessionStats (run (initial_state None) throwing_session)) = 101"
    unfolding r rest_def
    by (simp add: run_replicate_totalRequests [OF isClaude_example] t5)
  from t h show ?thesis by (simp add: p l)
qed

subsection \<open>The waste warning\<close>

text \<open>A streak of write-misses for requests without captured messages.\<close>

lemma run_replicate_Suc:
  "run st (replicate (Suc k) ev) = step (run st (replicate k ev)) ev"
proof -
  have "replicate (Suc k) ev = replicate k ev @ [ev]" by (simp add: replicate_append_same)
  then show ?thesis by (simp only: run_snoc)
qed

lemma run_replicate_usage_frame:
  "settings (run st (replicate k (Usage now usage'))) = settings st
   \<and> current_request.messages (currentRequest (run st (replicate k (Usage now usage'))))
       = current_request.messages (currentRequest st)"
  by (induction k arbitrary: st) simp_all

lemma count_at_least:
  "length (filter (\<lambda>c. th \<le> c) [Suc 0 ..< Suc k]) = Suc k - th" if "0 < th"
proof (induction k)
  case 0
  from that show ?case by simp
next
  case (Suc k)
  have "[Suc 0 ..< Suc (Suc k)] = [Suc 0 ..< Suc k] @ [Suc k]" by simp
  then have "length (filter (\<lambda>c. th \<le> c) [Suc 0 ..< Suc (Suc k)])
               = length (filter (\<lambda>c. th \<le> c) [Suc 0 ..< Suc k])
                 + length (filter (\<lambda>c. th \<le> c) [Suc k])"
    by (simp only: filter_append length_append)
  also have "\<dots> = (Suc k - th) + length (filter (\<lambda>c. th \<le> c) [Suc k])"
    by (simp only: Suc.IH)
  also have "\<dots> = Suc (Suc k) - th"
    by (cases "th \<le> Suc k") simp_all
  finally show ?case .
qed

lemma run_write_misses:
  assumes "current_request.messages (currentRequest st) = None"
    and "settings st = Some cfg" and "autoPauseOnWaste cfg"
    and "isClaude (model u)" and "\<not> hadCacheRead u" and "hadCacheWrite u"
  shows "consecutiveMisses (sessionStats (run st (replicate k (Usage now (Some u)))))
           = consecutiveMisses (sessionStats st) + k
         \<and> warnings (run st (replicate k (Usage now (Some u))))
           = warnings st
             @ map warning_text
                 (filter (\<lambda>c. wasteThreshold cfg \<le> int c)
                    [Suc (consecutiveMisses (sessionStats st))
                     ..< Suc (consecutiveMisses (sessionStats st) + k)])"
proof (induction k)
  case 0
  show ?case by simp
next
  case (Suc k)
  let ?st = "run st (replicate k (Usage now (Some u)))"
  have m: "hashMessages (current_request.messages (currentRequest ?st)) = Inr []"
    using assms(1) run_replicate_usage_frame [of st k now "Some u"] by simp
  have s: "settings ?st = Some cfg"
    using assms(2) run_replicate_usage_frame [of st k now "Some u"] by simp
  have c: "consecutiveMisses (update_counters u (sessionStats ?st))
             = Suc (consecutiveMisses (sessionStats st) + k)"
    using Suc assms(5,6) by (simp add: update_counters_def Let_def)
  have "consecutiveMisses (sessionStats (step ?st (Usage now (Some u))))
          = Suc (consecutiveMisses (sessionStats st) + k)"
    using c by (simp add: processUsageData_returned [OF assms(4) m])
  moreover have "warnings (step ?st (Usage now (Some u)))
          = warnings ?st @ waste_warning (Some cfg) (Suc (consecutiveMisses (sessionStats st) + k))"
    using c s by (simp add: processUsageData_returned [OF assms(4) m])
  moreover have "waste_warning (Some cfg) (Suc (consecutiveMisses (sessionStats st) + k))
          = map warning_text
              (filter (\<lambda>c. wasteThreshold cfg \<le> int c) [Suc (consecutiveMisses (sessionStats st) + k)])"
    using assms(3) by (simp add: waste_warning_def)
  moreover have "[Suc (consecutiveMisses (sessionStats st))
                   ..< Suc (consecutiveMisses (sessionStats st) + Suc k)]
          = [Suc (consecutiveMisses (sessionStats st)) ..< Suc (consecutiveMisses (sessionStats st) + k)]
            @ [Suc (consecutiveMisses (sessionStats st) + k)]"
    by simp
  ultimately show ?case
    using Suc by (simp only: run_replicate_Suc filter_append map_append append_assoc add_Suc_right simp_thms)
qed

text \<open>
  C7, amended. A call emits the warning exactly when it accepts the record, returns
  normally, the warning is enabled, and \<open>consecutiveMisses\<close>, after this record was
  counted, has reached the threshold: never below the threshold, and on every such call
  at or above it. So in a streak of \<open>k\<close> write-misses from the initial state, with a
  positive threshold \<open>th\<close>, the warning is shown \<open>k + 1 - th\<close> times (none for
  \<open>k < th\<close>): first on write-miss number \<open>th\<close>, then again on each further one.
\<close>

theorem waste_warning_threshold:
  "warnings (snd (processUsageData st now (Some u)))
     = warnings st
       @ (if isClaude (model u) \<and> fst (processUsageData st now (Some u)) = Returned
             \<and> (\<exists>cfg. settings st = Some cfg \<and> autoPauseOnWaste cfg
                       \<and> wasteThreshold cfg
                           \<le> int (consecutiveMisses
                                     (sessionStats (snd (processUsageData st now (Some u))))))
          then [warning_text
                  (consecutiveMisses (sessionStats (snd (processUsageData st now (Some u)))))]
          else [])
   \<and> (0 < th \<and> isClaude (model u) \<and> cache_read_input_tokens u = 0
        \<and> 0 < cache_creation_input_tokens u \<longrightarrow>
        length (warnings
                  (run (initial_state (Some \<lparr> autoPauseOnWaste = True, wasteThreshold = int th \<rparr>))
                     (replicate k (Usage now (Some u)))))
          = k + 1 - th)"
proof (intro conjI impI)
  show "warnings (snd (processUsageData st now (Some u)))
     = warnings st
       @ (if isClaude (model u) \<and> fst (processUsageData st now (Some u)) = Returned
             \<and> (\<exists>cfg. settings st = Some cfg \<and> autoPauseOnWaste cfg
                       \<and> wasteThreshold cfg
                           \<le> int (consecutiveMisses
                                     (sessionStats (snd (processUsageData st now (Some u))))))
          then [warning_text
                  (consecutiveMisses (sessionStats (snd (processUsageData st now (Some u)))))]
          else [])"
    by (cases "settings st") (auto simp: processUsageData_warnings waste_warning_def)
next
  assume a: "0 < th \<and> isClaude (model u) \<and> cache_read_input_tokens u = 0
        \<and> 0 < cache_creation_input_tokens u"
  let ?cfg = "\<lparr> autoPauseOnWaste = True, wasteThreshold = int th \<rparr>"
  have "warnings (run (initial_state (Some ?cfg)) (replicate k (Usage now (Some u))))
          = warnings (initial_state (Some ?cfg))
            @ map warning_text
                (filter (\<lambda>c. wasteThreshold ?cfg \<le> int c)
                   [Suc (consecutiveMisses (sessionStats (initial_state (Some ?cfg))))
                    ..< Suc (consecutiveMisses (sessionStats (initial_state (Some ?cfg))) + k)])"
    using a
    by (intro run_write_misses [THEN conjunct2])
      (simp_all add: initial_state_def hadCacheRead_def hadCacheWrite_def)
  then have "length (warnings (run (initial_state (Some ?cfg)) (replicate k (Usage now (Some u)))))
          = length (filter (\<lambda>c. th \<le> c) [Suc 0 ..< Suc k])"
    by (simp add: initial_state_def del: upt_Suc)
  with a show "length (warnings (run (initial_state (Some ?cfg)) (replicate k (Usage now (Some u)))))
          = k + 1 - th"
    by (simp add: count_at_least del: upt_Suc)
qed

text \<open>
  With threshold 3 the warning is not shown during the first and the second write-miss
  of a streak, and it is shown once by the end of the third.
\<close>

theorem waste_warning_threshold_witness:
  "map (\<lambda>k. length (warnings
                      (run (initial_state (Some \<lparr> autoPauseOnWaste = True, wasteThreshold = 3 \<rparr>))
                         (replicate k (Usage 1000 (Some (claude_usage 0 800)))))))
     [1, 2, 3] = [0, 0, 1]"
  using waste_warning_threshold [where u = "claude_usage 0 800" and th = 3 and k = 1 and now = 1000]
    waste_warning_threshold [where u = "claude_usage 0 800" and th = 3 and k = 2 and now = 1000]
    waste_warning_threshold [where u = "claude_usage 0 800" and th = 3 and k = 3 and now = 1000]
  by (simp add: isClaude_example)

text \<open>
  C7 as stated fails. With threshold 3, a streak of four write-misses crosses the
  threshold once, and the warning is shown twice: after the third and again after the
  fourth write-miss.
\<close>

theorem waste_warning_counterexample:
  "warnings (run (initial_state (Some \<lparr> autoPauseOnWaste = True, wasteThreshold = 3 \<rparr>))
               (replicate 4 (Usage 1000 (Some (claude_usage 0 800)))))
     = [''3 consecutive cache misses. Check prompt stability.'',
        ''4 consecutive cache misses. Check prompt stability.'']"
proof -
  let ?cfg = "\<lparr> autoPauseOnWaste = True, wasteThreshold = 3 \<rparr>"
  have "warnings (run (initial_state (Some ?cfg)) (replicate 4 (Usage 1000 (Some (claude_usage 0 800)))))
          = warnings (initial_state (Some ?cfg))
            @ map warning_text
                (filter (\<lambda>c. wasteThreshold ?cfg \<le> int c)
                   [Suc (consecutiveMisses (sessionStats (initial_state (Some ?cfg))))
                    ..< Suc (consecutiveMisses (sessionStats (initial_state (Some ?cfg))) + 4)])"
    by (intro run_write_misses [THEN conjunct2])
      (simp_all add: initial_state_def hadCacheRead_def hadCacheWrite_def isClaude_example)
  also have "\<dots> = map warning_text [3, 4]"
    by (simp add: initial_state_def upt_rec eval_nat_numeral)
  also have "\<dots> = [''3 consecutive cache misses. Check prompt stability.'',
        ''4 consecutive cache misses. Check prompt stability.'']"
    by (simp add: warning_text_def show_nat_def digits_of.simps digit_char_def)
  finally show ?thesis .
qed

section \<open>Properties of the Miss Diagnoser\<close>

text \<open>
  A snapshot reached from the initial state is either the all-null snapshot or carries
  a time stamp: \<open>processUsageData\<close> stores all fields at once.
\<close>

lemma step_snapshot_stamped:
  assumes "previousRequest st = no_previous_request
           \<or> previous_request.timestamp (previousRequest st) \<noteq> None"
  shows "previousRequest (step st ev) = no_previous_request
         \<or> previous_request.timestamp (previousRequest (step st ev)) \<noteq> None"
proof (cases ev)
  case (Usage now usage')
  have "update_previous cr now hs (previousRequest st) = no_previous_request
        \<or> previous_request.timestamp (update_previous cr now hs (previousRequest st)) \<noteq> None"
    for cr hs
    using assms by (cases "current_request.messages cr") (simp_all add: update_previous_timestamp)
  with assms Usage show ?thesis
    by (simp add: processUsageData_previous split: option.splits sum.splits)
qed (use assms in simp_all)

lemma run_snapshot_stamped:
  assumes "previousRequest st = no_previous_request
           \<or> previous_request.timestamp (previousRequest st) \<noteq> None"
  shows "previousRequest (run st evs) = no_previous_request
         \<or> previous_request.timestamp (previousRequest (run st evs)) \<noteq> None"
  using assms
proof (induction evs arbitrary: st)
  case Nil
  then show ?case by simp
next
  case (Cons ev evs)
  from Cons.IH [OF step_snapshot_stamped [OF Cons.prems]] show ?case by simp
qed

lemma generateSmartRecommendations_none:
  "locationAnalysis a = None \<Longrightarrow> \<not> ttlWarning a \<Longrightarrow> loreIssue a = None
     \<Longrightarrow> generateSmartRecommendations a = []"
  by (simp add: generateSmartRecommendations_def)

lemma analyzeCacheMiss_first_request:
  "analyzeCacheMiss no_previous_request now msgs hs
     = empty_analysis\<lparr> reasons := [''First request - no previous cache''] \<rparr>"
proof -
  have t: "ttl_check no_previous_request now
             = empty_analysis\<lparr> reasons := [''First request - no previous cache''] \<rparr>"
    by (simp add: ttl_check_def no_previous_request_def)
  have d: "divergence_check no_previous_request hs a = a" for a
    by (simp add: divergence_check_def no_previous_request_def)
  have s: "system_prompt_check no_previous_request msgs a = a" for a
    by (simp add: system_prompt_check_def no_previous_request_def Let_def
          split: option.splits list.splits)
  show ?thesis
    by (simp add: analyzeCacheMiss_def t d s Let_def generateSmartRecommendations_none
          empty_analysis_def)
qed

text \<open>Only the TTL check writes a reason that starts with \<open>TTL expired\<close>.\<close>

lemma is_ttl_reason_ttl [simp]: "is_ttl_reason (ttl_reason x)"
  by (simp add: is_ttl_reason_def ttl_reason_def)

lemma findDivergencePoint_reason_not_ttl:
  "0 \<le> divergeIndex (findDivergencePoint (Some p) (Some c))
     \<Longrightarrow> \<not> is_ttl_reason (reason (findDivergencePoint (Some p) (Some c)))"
  by (cases "first_hash_diff 0 p c")
    (auto simp: findDivergencePoint_def is_ttl_reason_def Let_def split: if_splits)

lemma ttl_check_stamped:
  assumes "previous_request.timestamp prev = Some t" "t \<noteq> 0"
  shows "ttlWarning (ttl_check prev now) = (300000 < now - t)"
    and "reasons (ttl_check prev now) = (if 300000 < now - t then [ttl_reason (now - t)] else [])"
  using assms by (simp_all add: ttl_check_def Let_def empty_analysis_def)

lemma divergence_check_reasons:
  "ttlWarning (divergence_check prev hs a) = ttlWarning a
   \<and> (\<exists>d. reasons (divergence_check prev hs a) = reasons a @ d
           \<and> list_all (\<lambda>r. \<not> is_ttl_reason r) d)"
proof (cases "previous_request.messageHashes prev")
  case None
  then show ?thesis by (simp add: divergence_check_def)
next
  case (Some ph)
  show ?thesis
  proof (cases "0 \<le> divergeIndex (findDivergencePoint (Some ph) (Some hs))")
    case True
    with Some findDivergencePoint_reason_not_ttl [OF True] show ?thesis
      by (simp add: divergence_check_def Let_def)
  next
    case False
    with Some show ?thesis by (simp add: divergence_check_def Let_def)
  qed
qed

lemma system_prompt_check_reasons:
  "ttlWarning (system_prompt_check prev msgs a) = ttlWarning a
   \<and> (\<exists>d. reasons (system_prompt_check prev msgs a) = reasons a @ d
           \<and> list_all (\<lambda>r. \<not> is_ttl_reason r) d)"
  by (simp add: system_prompt_check_def Let_def is_ttl_reason_def
        split: option.splits list.splits)

lemma analyzeCacheMiss_reasons:
  "ttlWarning (analyzeCacheMiss prev now msgs hs) = ttlWarning (ttl_check prev now)
   \<and> (\<exists>d. reasons (analyzeCacheMiss prev now msgs hs) = reasons (ttl_check prev now) @ d
           \<and> list_all (\<lambda>r. \<not> is_ttl_reason r) d)"
proof -
  obtain d1 where d1: "reasons (divergence_check prev hs (ttl_check prev now))
                         = reasons (ttl_check prev now) @ d1"
      "list_all (\<lambda>r. \<not> is_ttl_reason r) d1"
    using divergence_check_reasons [of prev hs "ttl_check prev now"] by blast
  obtain d2 where d2:
      "reasons (system_prompt_check prev msgs (divergence_check prev hs (ttl_check prev now)))
         = reasons (divergence_check prev hs (ttl_check prev now)) @ d2"
      "list_all (\<lambda>r. \<not> is_ttl_reason r) d2"
    using system_prompt_check_reasons [of prev msgs "divergence_check prev hs (ttl_check prev now)"]
    by blast
  have "reasons (analyzeCacheMiss prev now msgs hs) = reasons (ttl_check prev now) @ (d1 @ d2)"
    using d1(1) d2(1) by (simp add: analyzeCacheMiss_def Let_def)
  moreover have "list_all (\<lambda>r. \<not> is_ttl_reason r) (d1 @ d2)" using d1(2) d2(2) by simp
  moreover have "ttlWarning (analyzeCacheMiss prev now msgs hs) = ttlWarning (ttl_check prev now)"
    using divergence_check_reasons [of prev hs "ttl_check prev now"]
      system_prompt_check_reasons [of prev msgs "divergence_check prev hs (ttl_check prev now)"]
    by (simp add: analyzeCacheMiss_def Let_def)
  ultimately show ?thesis by blast
qed

text \<open>
  C3. Whenever the module, at any point after it was loaded, has no previous time stamp,
  the diagnosis consists of the single reason "First request - no previous cache": no
  divergence analysis, no location analysis, no lore issue, \<open>ttlWarning\<close> false and no
  primary diagnosis. When a previous time stamp exists, \<open>ttlWarning\<close> is set iff more
  than 300000 ms have passed since then, a reason starting with \<open>TTL expired\<close> is among
  the reasons iff that is so, and it is then the first reason.
\<close>

theorem analyzeCacheMiss_first_request_and_ttl:
  "(previous_request.timestamp (previousRequest (run (initial_state cfg) evs)) = None \<longrightarrow>
      reasons (analyzeCacheMiss (previousRequest (run (initial_state cfg) evs)) now msgs hs)
        = [''First request - no previous cache'']
      \<and> divergence (analyzeCacheMiss (previousRequest (run (initial_state cfg) evs)) now msgs hs)
          = None
      \<and> locationAnalysis
          (analyzeCacheMiss (previousRequest (run (initial_state cfg) evs)) now msgs hs) = None
      \<and> loreIssue (analyzeCacheMiss (previousRequest (run (initial_state cfg) evs)) now msgs hs)
          = None
      \<and> \<not> ttlWarning (analyzeCacheMiss (previousRequest (run (initial_state cfg) evs)) now msgs hs)
      \<and> primaryDiagnosis
          (analyzeCacheMiss (previousRequest (run (initial_state cfg) evs)) now msgs hs) = None)
   \<and> (previous_request.timestamp prev = Some t \<and> t \<noteq> 0 \<longrightarrow>
        (ttlWarning (analyzeCacheMiss prev now msgs hs) \<longleftrightarrow> 300000 < now - t)
        \<and> ((\<exists>r \<in> set (reasons (analyzeCacheMiss prev now msgs hs)). is_ttl_reason r)
             \<longleftrightarrow> 300000 < now - t)
        \<and> (300000 < now - t \<longrightarrow>
             hd (reasons (analyzeCacheMiss prev now msgs hs)) = ttl_reason (now - t)))"
proof (intro conjI impI)
  assume n: "previous_request.timestamp (previousRequest (run (initial_state cfg) evs)) = None"
  have "previousRequest (initial_state cfg) = no_previous_request" by (simp add: initial_state_def)
  then have "previousRequest (run (initial_state cfg) evs) = no_previous_request
             \<or> previous_request.timestamp (previousRequest (run (initial_state cfg) evs)) \<noteq> None"
    by (intro run_snapshot_stamped) simp
  with n have p: "previousRequest (run (initial_state cfg) evs) = no_previous_request" by simp
  let ?a = "analyzeCacheMiss (previousRequest (run (initial_state cfg) evs)) now msgs hs"
  have a: "?a = empty_analysis\<lparr> reasons := [''First request - no previous cache''] \<rparr>"
    by (simp only: p analyzeCacheMiss_first_request)
  show "reasons ?a = [''First request - no previous cache'']" by (simp add: a)
  show "divergence ?a = None" by (simp add: a empty_analysis_def)
  show "locationAnalysis ?a = None" by (simp add: a empty_analysis_def)
  show "loreIssue ?a = None" by (simp add: a empty_analysis_def)
  show "\<not> ttlWarning ?a" by (simp add: a empty_analysis_def)
  show "primaryDiagnosis ?a = None" by (simp add: a empty_analysis_def)
next
  assume s: "previous_request.timestamp prev = Some t \<and> t \<noteq> 0"
  obtain d where d: "reasons (analyzeCacheMiss prev now msgs hs) = reasons (ttl_check prev now) @ d"
      "list_all (\<lambda>r. \<not> is_ttl_reason r) d"
      and w: "ttlWarning (analyzeCacheMiss prev now msgs hs) = ttlWarning (ttl_check prev now)"
    using analyzeCacheMiss_reasons [of prev now msgs hs] by blast
  from s have tw: "ttlWarning (ttl_check prev now) = (300000 < now - t)"
    and tr: "reasons (ttl_check prev now) = (if 300000 < now - t then [ttl_reason (now - t)] else [])"
    by (simp_all add: ttl_check_stamped)
  show "ttlWarning (analyzeCacheMiss prev now msgs hs) \<longleftrightarrow> 300000 < now - t"
    by (simp add: w tw)
  show "(\<exists>r \<in> set (reasons (analyzeCacheMiss prev now msgs hs)). is_ttl_reason r)
             \<longleftrightarrow> 300000 < now - t"
  proof (cases "300000 < now - t")
    case True
    then have "reasons (analyzeCacheMiss prev now msgs hs) = ttl_reason (now - t) # d"
      by (simp add: d(1) tr)
    with True show ?thesis by simp
  next
    case False
    then have "reasons (analyzeCacheMiss prev now msgs hs) = d" by (simp add: d(1) tr)
    with False d(2) show ?thesis by (simp add: list_all_iff)
  qed
  show "hd (reasons (analyzeCacheMiss prev now msgs hs)) = ttl_reason (now - t)"
    if "300000 < now - t"
    using that by (simp add: d(1) tr)
qed

text \<open>
  The first request of a session, and a miss 400000 ms and one 100000 ms after a
  snapshot taken at time 2000.
\<close>

theorem analyzeCacheMiss_first_request_and_ttl_witness:
  "reasons (analyzeCacheMiss (previousRequest (run (initial_state None) [])) 1000 None [])
     = [''First request - no previous cache'']
   \<and> primaryDiagnosis (analyzeCacheMiss (previousRequest (run (initial_state None) [])) 1000 None [])
       = None
   \<and> ttlWarning
        (analyzeCacheMiss
           \<lparr> previous_request.messages = Some [], previous_request.messageHashes = Some [],
             systemPrompt = None, systemPromptHash = None,
             previous_request.timestamp = Some 2000 \<rparr> 402000 (Some []) [])
   \<and> hd (reasons
        (analyzeCacheMiss
           \<lparr> previous_request.messages = Some [], previous_request.messageHashes = Some [],
             systemPrompt = None, systemPromptHash = None,
             previous_request.timestamp = Some 2000 \<rparr> 402000 (Some []) []))
       = ''TTL expired (400s since last request, max 300s)''
   \<and> \<not> ttlWarning
        (analyzeCacheMiss
           \<lparr> previous_request.messages = Some [], previous_request.messageHashes = Some [],
             systemPrompt = None, systemPromptHash = None,
             previous_request.timestamp = Some 2000 \<rparr> 102000 (Some []) [])"
proof -
  let ?prev = "\<lparr> previous_request.messages = Some [], previous_request.messageHashes = Some [],
             systemPrompt = None, systemPromptHash = None,
             previous_request.timestamp = Some (2000 :: int) \<rparr>"
  have t: "ttl_reason 400000 = ''TTL expired (400s since last request, max 300s)''"
    by (simp add: ttl_reason_def round_seconds_def show_int_def digits_of.simps digit_char_def)
  have i: "previous_request.timestamp (previousRequest (run (initial_state None) [])) = None"
    by (simp add: initial_state_def no_previous_request_def)
  have p: "previous_request.timestamp ?prev = Some 2000 \<and> (2000 :: int) \<noteq> 0" by simp
  from analyzeCacheMiss_first_request_and_ttl
         [of None "[]" 1000 None "[]" ?prev 2000, THEN conjunct1, THEN mp, OF i]
  have a: "reasons (analyzeCacheMiss (previousRequest (run (initial_state None) [])) 1000 None [])
             = [''First request - no previous cache'']"
    and b: "primaryDiagnosis (analyzeCacheMiss (previousRequest (run (initial_state None) [])) 1000 None [])
             = None"
    by blast+
  from analyzeCacheMiss_first_request_and_ttl
         [of None "[]" 402000 "Some []" "[]" ?prev 2000, THEN conjunct2, THEN mp, OF p]
  have c: "ttlWarning (analyzeCacheMiss ?prev 402000 (Some []) [])"
    and d: "hd (reasons (analyzeCacheMiss ?prev 402000 (Some []) [])) = ttl_reason 400000"
    by simp_all
  from analyzeCacheMiss_first_request_and_ttl
         [of None "[]" 102000 "Some []" "[]" ?prev 2000, THEN conjunct2, THEN mp, OF p]
  have e: "\<not> ttlWarning (analyzeCacheMiss ?prev 102000 (Some []) [])"
    by simp
  from a b c d e show ?thesis by (simp only: t simp_thms)
qed

end
